theory Spec2Isabelle
  imports Complex_Main
begin

section \<open>JavaScript numbers\<close>

text \<open>
  Every number of \<^verbatim>\<open>server.js\<close> is an IEEE 754 binary64 value: a finite value, given here
  by the rational it denotes, or one of the infinities, or \<^verbatim>\<open>NaN\<close>. The sign of zero is
  not kept: the server never divides by a zero, a comparison does not tell the two zeros
  apart, and \<^verbatim>\<open>JSON.stringify\<close> and \<^verbatim>\<open>String\<close> write both as \<^verbatim>\<open>0\<close>.
\<close>

datatype double = Fin rat | PInf | NInf | NaN

text \<open>Rounding to the nearest integer, ties to the even one.\<close>

definition roundHalfEven :: "rat \<Rightarrow> int" where
  "roundHalfEven y =
     (let f = \<lfloor>y\<rfloor>; d = y - of_int f
      in if d < 1 / 2 then f else if 1 / 2 < d then f + 1 else if even f then f else f + 1)"

text \<open>The binary exponent of a positive rational: \<open>2 powi log2floor x \<le> x < 2 powi (log2floor x + 1)\<close>,
  found by halving a value of at least 2 and doubling a value below 1.\<close>

function halvings :: "rat \<Rightarrow> nat" where
  "halvings x = (if 2 \<le> x then Suc (halvings (x / 2)) else 0)"
  by pat_completeness auto
termination
proof (relation "measure (\<lambda>x. nat \<lfloor>x\<rfloor>)")
  show "wf (measure (\<lambda>x::rat. nat \<lfloor>x\<rfloor>))" by simp
next
  fix x :: rat
  assume x: "2 \<le> x"
  have "x / 2 \<le> x - 1" using x by simp
  also have "x - 1 < of_int \<lfloor>x\<rfloor>" by linarith
  finally have "\<lfloor>x / 2\<rfloor> < \<lfloor>x\<rfloor>" by (simp add: floor_less_iff)
  moreover have "0 < \<lfloor>x\<rfloor>" using x by simp
  ultimately show "(x / 2, x) \<in> measure (\<lambda>x. nat \<lfloor>x\<rfloor>)" by simp
qed

function doublings :: "rat \<Rightarrow> nat" where
  "doublings x = (if 0 < x \<and> x < 1 then Suc (doublings (2 * x)) else 0)"
  by pat_completeness auto
termination
proof (relation "measure (\<lambda>x. nat \<lfloor>1 / x\<rfloor>)")
  show "wf (measure (\<lambda>x::rat. nat \<lfloor>1 / x\<rfloor>))" by simp
next
  fix x :: rat
  assume x: "0 < x \<and> x < 1"
  then have y: "1 < 1 / x" by simp
  then have f: "1 \<le> \<lfloor>1 / x\<rfloor>" by simp
  have "1 / x < of_int \<lfloor>1 / x\<rfloor> + 1" by linarith
  then have "1 / x / 2 < (of_int \<lfloor>1 / x\<rfloor> + 1) / 2" by simp
  also have "\<dots> \<le> of_int \<lfloor>1 / x\<rfloor>" using f by simp
  finally have "1 / (2 * x) < of_int \<lfloor>1 / x\<rfloor>" by simp
  then have "\<lfloor>1 / (2 * x)\<rfloor> < \<lfloor>1 / x\<rfloor>" by (simp add: floor_less_iff)
  with f show "(2 * x, x) \<in> measure (\<lambda>x. nat \<lfloor>1 / x\<rfloor>)" by simp
qed

definition log2floor :: "rat \<Rightarrow> int" where
  "log2floor x = (if 1 \<le> x then int (halvings x) else - int (doublings x))"

text \<open>
  The double nearest to a rational, ties to the even significand: the value is rounded to a
  multiple of \<open>2 powi (e - 52)\<close>, where \<open>e\<close> is its binary exponent, or \<open>- 1022\<close> for
  the subnormal range; a result of \<open>2 ^ 1024\<close> or more is an infinity. This is the
  conversion of a JSON number by \<^verbatim>\<open>JSON.parse\<close> and the rounding of every arithmetic
  result.
\<close>

definition toDouble :: "rat \<Rightarrow> double" where
  "toDouble x =
     (let a = \<bar>x\<bar>;
          e = max (log2floor a) (- 1022);
          q = 2 powi (e - 52);
          y = q * of_int (roundHalfEven (a / q))
      in if 2 ^ 1024 \<le> y then (if 0 < x then PInf else NInf)
         else Fin (if 0 \<le> x then y else - y))"

text \<open>\<^verbatim>\<open>a + b\<close>, \<^verbatim>\<open>a - b\<close> and \<^verbatim>\<open>a / b\<close> on numbers.\<close>

fun js_add :: "double \<Rightarrow> double \<Rightarrow> double" where
  "js_add (Fin a) (Fin b) = toDouble (a + b)"
| "js_add NaN y = NaN"
| "js_add x NaN = NaN"
| "js_add PInf NInf = NaN"
| "js_add NInf PInf = NaN"
| "js_add PInf y = PInf"
| "js_add x PInf = PInf"
| "js_add NInf y = NInf"
| "js_add x NInf = NInf"

fun js_neg :: "double \<Rightarrow> double" where
  "js_neg (Fin a) = Fin (- a)"
| "js_neg PInf = NInf"
| "js_neg NInf = PInf"
| "js_neg NaN = NaN"

definition js_sub :: "double \<Rightarrow> double \<Rightarrow> double" where
  "js_sub x y = js_add x (js_neg y)"

fun js_div :: "double \<Rightarrow> double \<Rightarrow> double" where
  "js_div (Fin a) (Fin b) =
     (if b = 0 then (if a = 0 then NaN else if 0 < a then PInf else NInf) else toDouble (a / b))"
| "js_div NaN y = NaN"
| "js_div x NaN = NaN"
| "js_div (Fin a) y = Fin 0"
| "js_div PInf (Fin b) = (if 0 \<le> b then PInf else NInf)"
| "js_div NInf (Fin b) = (if 0 \<le> b then NInf else PInf)"
| "js_div x y = NaN"

text \<open>\<^verbatim>\<open>a < b\<close> and \<^verbatim>\<open>a <= b\<close>; \<^verbatim>\<open>a > b\<close> is \<open>js_lt b a\<close>. Every comparison with
  \<^verbatim>\<open>NaN\<close> is false.\<close>

fun js_lt :: "double \<Rightarrow> double \<Rightarrow> bool" where
  "js_lt (Fin a) (Fin b) = (a < b)"
| "js_lt NaN y = False"
| "js_lt x NaN = False"
| "js_lt x NInf = False"
| "js_lt PInf y = False"
| "js_lt NInf y = True"
| "js_lt x PInf = True"

fun js_le :: "double \<Rightarrow> double \<Rightarrow> bool" where
  "js_le (Fin a) (Fin b) = (a \<le> b)"
| "js_le NaN y = False"
| "js_le x NaN = False"
| "js_le NInf y = True"
| "js_le x PInf = True"
| "js_le x NInf = False"
| "js_le PInf y = False"

section \<open>JSON values as the handlers see them\<close>

text \<open>
  \<^verbatim>\<open>server.js\<close> reads every request body through \<^verbatim>\<open>bodyParser.json()\<close>, so a body field
  is an arbitrary JSON value, or \<^verbatim>\<open>undefined\<close> when the field is missing. The handlers test
  these values with \<^verbatim>\<open>!x\<close>, \<^verbatim>\<open>typeof x !== 'number'\<close> and \<^verbatim>\<open>===\<close>, which are modelled below.
  \<open>JNum r\<close> is a JSON number whose text denotes the rational \<open>r\<close>; the number the handler
  sees is \<open>toDouble r\<close>.
\<close>

datatype jsval =
    JUndefined
  | JNull
  | JBool bool
  | JNum rat
  | JStr string
  | JArr "jsval list"
  | JObj "(string \<times> jsval) list"

text \<open>\<^verbatim>\<open>!x\<close> is \<open>\<not> truthy x\<close>: the falsy values are \<^verbatim>\<open>undefined\<close>, \<^verbatim>\<open>null\<close>,
  \<^verbatim>\<open>false\<close>, \<^verbatim>\<open>0\<close> and the empty string.\<close>

fun truthy :: "jsval \<Rightarrow> bool" where
  "truthy JUndefined = False"
| "truthy JNull = False"
| "truthy (JBool b) = b"
| "truthy (JNum r) = (toDouble r \<noteq> Fin 0)"
| "truthy (JStr s) = (s \<noteq> [])"
| "truthy (JArr xs) = True"
| "truthy (JObj kvs) = True"

text \<open>\<^verbatim>\<open>a === b\<close>. Arrays and objects compare by reference; a value parsed from one request
  body is never the same reference as a value stored from an earlier request, and these are
  the only comparisons the handlers make, so the result for them is \<open>False\<close>.\<close>

fun strict_eq :: "jsval \<Rightarrow> jsval \<Rightarrow> bool" where
  "strict_eq JUndefined JUndefined = True"
| "strict_eq JNull JNull = True"
| "strict_eq (JBool a) (JBool b) = (a = b)"
| "strict_eq (JNum a) (JNum b) = (toDouble a = toDouble b)"
| "strict_eq (JStr a) (JStr b) = (a = b)"
| "strict_eq _ _ = False"

text \<open>Joining strings with a separator, as \<^verbatim>\<open>Array.prototype.join\<close> does.\<close>

fun join_with :: "string \<Rightarrow> string list \<Rightarrow> string" where
  "join_with sep [] = []"
| "join_with sep [x] = x"
| "join_with sep (x # y # ys) = x @ sep @ join_with sep (y # ys)"

text \<open>\<^verbatim>\<open>String(x)\<close>, the conversion a property access \<^verbatim>\<open>obj[x]\<close> applies to its key. The
  rendering of a number is taken as a parameter \<open>ns\<close>.\<close>

fun toString :: "(double \<Rightarrow> string) \<Rightarrow> jsval \<Rightarrow> string" where
  "toString ns JUndefined = ''undefined''"
| "toString ns JNull = ''null''"
| "toString ns (JBool b) = (if b then ''true'' else ''false'')"
| "toString ns (JNum r) = ns (toDouble r)"
| "toString ns (JStr s) = s"
| "toString ns (JArr xs) =
     join_with '','' (map (\<lambda>x. if x = JUndefined \<or> x = JNull then [] else toString ns x) xs)"
| "toString ns (JObj kvs) = ''[object Object]''"
section \<open>The three stores\<close>

text \<open>\<^verbatim>\<open>users\<close>: \<^verbatim>\<open>{id, type, name, token}\<close>; \<^verbatim>\<open>products\<close>:
  \<^verbatim>\<open>{id, farmerId, name, desc, price, quantity}\<close>; \<^verbatim>\<open>orders\<close>:
  \<^verbatim>\<open>{id, productId, buyerId, qty, date}\<close>. Ids, tokens and dates are strings made by the
  server; \<^verbatim>\<open>name\<close>, \<^verbatim>\<open>type\<close>, \<^verbatim>\<open>desc\<close> and \<^verbatim>\<open>productId\<close> are stored as they came in the
  body; \<^verbatim>\<open>price\<close>, \<^verbatim>\<open>quantity\<close> and \<^verbatim>\<open>qty\<close> are stored only after
  \<^verbatim>\<open>typeof x === 'number'\<close> held.\<close>

record user =
  u_id :: string
  u_name :: jsval
  u_type :: jsval
  u_token :: string

record product =
  p_id :: string
  p_farmerId :: string
  p_name :: jsval
  p_desc :: jsval
  p_price :: double
  p_quantity :: double

record order =
  o_id :: string
  o_productId :: jsval
  o_buyerId :: string
  o_qty :: double
  o_date :: string

record state =
  users :: "user list"
  products :: "product list"
  orders :: "order list"

text \<open>The stores of a server started on an empty data directory: \<^verbatim>\<open>loadData\<close> creates each
  file with \<^verbatim>\<open>[]\<close>.\<close>

definition init :: state where
  "init = \<lparr>users = [], products = [], orders = []\<rparr>"

section \<open>Responses\<close>

text \<open>Every error response of the server, named after its message, with its HTTP status.\<close>

datatype error =
    NoTokenProvided
  | InvalidToken
  | InvalidRegistrationData
  | UserAlreadyExists
  | InvalidLoginData
  | UserNotFound
  | ProductNotFound
  | OnlyFarmersCanAddProducts
  | OnlyBuyersCanPlaceOrders
  | InvalidProductData
  | InvalidOrderData
  | QuantityExceedsAvailable double double
  | UnknownUserType

fun status :: "error \<Rightarrow> nat" where
  "status NoTokenProvided = 401"
| "status InvalidToken = 401"
| "status InvalidRegistrationData = 400"
| "status UserAlreadyExists = 400"
| "status InvalidLoginData = 400"
| "status UserNotFound = 400"
| "status ProductNotFound = 404"
| "status OnlyFarmersCanAddProducts = 403"
| "status OnlyBuyersCanPlaceOrders = 403"
| "status InvalidProductData = 400"
| "status InvalidOrderData = 400"
| "status (QuantityExceedsAvailable requested available) = 400"
| "status UnknownUserType = 400"

text \<open>The error taxonomy of the specification, and the class of each response.\<close>

datatype failure =
    InvalidInput
  | DuplicateActor
  | NotFound
  | Unauthenticated
  | Forbidden
  | InsufficientQuantity double double

fun failure_of :: "error \<Rightarrow> failure" where
  "failure_of NoTokenProvided = Unauthenticated"
| "failure_of InvalidToken = Unauthenticated"
| "failure_of InvalidRegistrationData = InvalidInput"
| "failure_of UserAlreadyExists = DuplicateActor"
| "failure_of InvalidLoginData = InvalidInput"
| "failure_of UserNotFound = NotFound"
| "failure_of ProductNotFound = NotFound"
| "failure_of OnlyFarmersCanAddProducts = Forbidden"
| "failure_of OnlyBuyersCanPlaceOrders = Forbidden"
| "failure_of InvalidProductData = InvalidInput"
| "failure_of InvalidOrderData = InvalidInput"
| "failure_of (QuantityExceedsAvailable requested available) = InsufficientQuantity requested available"
| "failure_of UnknownUserType = InvalidInput"

text \<open>What a handler failed with, if it failed.\<close>

fun fails_with :: "(error + 'a) \<times> state \<Rightarrow> failure option" where
  "fails_with (Inl e, s) = Some (failure_of e)"
| "fails_with (Inr v, s) = None"

section \<open>Authentication\<close>

text \<open>\<^verbatim>\<open>authMiddleware\<close>: the \<^verbatim>\<open>Authorization\<close> header is absent (\<open>None\<close>) or a string;
  the token is what follows \<^verbatim>\<open>'Bearer '\<close>; the user is the first one holding that token.\<close>

definition authMiddleware :: "state \<Rightarrow> string option \<Rightarrow> error + user" where
  "authMiddleware s authHeader =
     (case authHeader of
        None \<Rightarrow> Inl NoTokenProvided
      | Some h \<Rightarrow>
          if h = [] \<or> take 7 h \<noteq> ''Bearer '' then Inl NoTokenProvided
          else (let token = drop 7 h in
                case find (\<lambda>u. u_token u = token) (users s) of
                  None \<Rightarrow> Inl InvalidToken
                | Some u \<Rightarrow> Inr u))"

section \<open>Identity store\<close>

text \<open>\<^verbatim>\<open>!name || !type || (type !== 'farmer' && type !== 'buyer')\<close>, shared by
  \<^verbatim>\<open>POST /register\<close> and \<^verbatim>\<open>POST /login\<close>.\<close>

definition invalid_name_type :: "jsval \<Rightarrow> jsval \<Rightarrow> bool" where
  "invalid_name_type name type \<longleftrightarrow>
     \<not> truthy name \<or> \<not> truthy type \<or>
     (\<not> strict_eq type (JStr ''farmer'') \<and> \<not> strict_eq type (JStr ''buyer''))"

text \<open>The predicate of \<^verbatim>\<open>users.find(u => u.name === name && u.type === type)\<close>.\<close>

definition same_name_type :: "jsval \<Rightarrow> jsval \<Rightarrow> user \<Rightarrow> bool" where
  "same_name_type name type u \<longleftrightarrow> strict_eq (u_name u) name \<and> strict_eq (u_type u) type"

text \<open>\<^verbatim>\<open>POST /register\<close>. \<open>gid\<close> and \<open>gtoken\<close> are the strings that \<^verbatim>\<open>genId()\<close> and
  \<^verbatim>\<open>genToken()\<close> draw from \<^verbatim>\<open>crypto.randomBytes\<close>.\<close>

definition register :: "state \<Rightarrow> jsval \<Rightarrow> jsval \<Rightarrow> string \<Rightarrow> string \<Rightarrow> (error + user) \<times> state" where
  "register s name type gid gtoken =
     (if invalid_name_type name type then (Inl InvalidRegistrationData, s)
      else if find (same_name_type name type) (users s) \<noteq> None then (Inl UserAlreadyExists, s)
      else (let newUser = \<lparr>u_id = gid, u_name = name, u_type = type, u_token = gtoken\<rparr>
            in (Inr newUser, s\<lparr>users := users s @ [newUser]\<rparr>)))"

text \<open>\<^verbatim>\<open>user.token = genToken()\<close> assigns through the reference that \<^verbatim>\<open>find\<close> returned:
  the first matching element of the array changes in place.\<close>

fun update_first :: "('a \<Rightarrow> bool) \<Rightarrow> ('a \<Rightarrow> 'a) \<Rightarrow> 'a list \<Rightarrow> 'a list" where
  "update_first P f [] = []"
| "update_first P f (x # xs) = (if P x then f x # xs else x # update_first P f xs)"

text \<open>\<^verbatim>\<open>POST /login\<close>.\<close>

definition login :: "state \<Rightarrow> jsval \<Rightarrow> jsval \<Rightarrow> string \<Rightarrow> (error + user) \<times> state" where
  "login s name type gtoken =
     (if invalid_name_type name type then (Inl InvalidLoginData, s)
      else (case find (same_name_type name type) (users s) of
              None \<Rightarrow> (Inl UserNotFound, s)
            | Some user \<Rightarrow>
                (Inr (user\<lparr>u_token := gtoken\<rparr>),
                 s\<lparr>users := update_first (same_name_type name type) (\<lambda>u. u\<lparr>u_token := gtoken\<rparr>) (users s)\<rparr>)))"

section \<open>Catalog and availability\<close>

text \<open>\<^verbatim>\<open>orders.filter(o => o.productId === k).reduce((acc,o) => acc + o.qty, 0)\<close>, written
  three times in the source.\<close>

definition soldQty :: "order list \<Rightarrow> jsval \<Rightarrow> double" where
  "soldQty os k =
     foldl (\<lambda>acc ord. js_add acc (o_qty ord)) (Fin 0)
       (filter (\<lambda>ord. strict_eq (o_productId ord) k) os)"

text \<open>\<^verbatim>\<open>u ? u.name : 'Unknown'\<close> for \<^verbatim>\<open>u = users.find(u => u.id === farmerId)\<close>.\<close>

definition farmerName :: "user list \<Rightarrow> string \<Rightarrow> jsval" where
  "farmerName us farmerId =
     (case find (\<lambda>u. u_id u = farmerId) us of Some u \<Rightarrow> u_name u | None \<Rightarrow> JStr ''Unknown'')"

record product_avail =
  pa_id :: string
  pa_farmerId :: string
  pa_farmerName :: jsval
  pa_name :: jsval
  pa_desc :: jsval
  pa_price :: double
  pa_quantityAvailable :: double

text \<open>\<^verbatim>\<open>GET /products\<close>.\<close>

definition getProducts :: "state \<Rightarrow> product_avail list" where
  "getProducts s =
     filter (\<lambda>p. js_lt (Fin 0) (pa_quantityAvailable p))
       (map (\<lambda>p. \<lparr>pa_id = p_id p,
                  pa_farmerId = p_farmerId p,
                  pa_farmerName = farmerName (users s) (p_farmerId p),
                  pa_name = p_name p,
                  pa_desc = p_desc p,
                  pa_price = p_price p,
                  pa_quantityAvailable = js_sub (p_quantity p) (soldQty (orders s) (JStr (p_id p)))\<rparr>)
            (products s))"

record product_detail =
  pd_product :: product
  pd_farmerName :: jsval
  pd_quantityAvailable :: double

text \<open>\<^verbatim>\<open>GET /products/:id\<close>.\<close>

definition getProductById :: "state \<Rightarrow> string \<Rightarrow> error + product_detail" where
  "getProductById s ident =
     (case find (\<lambda>p. p_id p = ident) (products s) of
        None \<Rightarrow> Inl ProductNotFound
      | Some product \<Rightarrow>
          (let sold = soldQty (orders s) (JStr (p_id product));
               availability = js_sub (p_quantity product) sold
           in Inr \<lparr>pd_product = product,
                   pd_farmerName = farmerName (users s) (p_farmerId product),
                   pd_quantityAvailable = availability\<rparr>))"

text \<open>\<open>as_number x\<close> is \<open>Some d\<close> exactly when \<^verbatim>\<open>typeof x === 'number'\<close>, and \<open>d\<close>
  is then the number.\<close>

fun as_number :: "jsval \<Rightarrow> double option" where
  "as_number (JNum r) = Some (toDouble r)"
| "as_number v = None"

text \<open>The handler of \<^verbatim>\<open>POST /products\<close>, run with \<^verbatim>\<open>req.user\<close> set by the middleware.\<close>

definition addProductHandler ::
  "state \<Rightarrow> user \<Rightarrow> jsval \<Rightarrow> jsval \<Rightarrow> jsval \<Rightarrow> jsval \<Rightarrow> string \<Rightarrow> (error + product) \<times> state" where
  "addProductHandler s reqUser name desc price quantity gid =
     (if \<not> strict_eq (u_type reqUser) (JStr ''farmer'') then (Inl OnlyFarmersCanAddProducts, s)
      else (case as_number price of
              None \<Rightarrow> (Inl InvalidProductData, s)
            | Some pr \<Rightarrow>
               (case as_number quantity of
                  None \<Rightarrow> (Inl InvalidProductData, s)
                | Some q \<Rightarrow>
                    if \<not> truthy name \<or> js_le pr (Fin 0) \<or> js_le q (Fin 0) then (Inl InvalidProductData, s)
                    else (let newProd = \<lparr>p_id = gid,
                                         p_farmerId = u_id reqUser,
                                         p_name = name,
                                         p_desc = (if truthy desc then desc else JStr []),
                                         p_price = pr,
                                         p_quantity = q\<rparr>
                          in (Inr newProd, s\<lparr>products := products s @ [newProd]\<rparr>)))))"

definition addProduct ::
  "state \<Rightarrow> string option \<Rightarrow> jsval \<Rightarrow> jsval \<Rightarrow> jsval \<Rightarrow> jsval \<Rightarrow> string \<Rightarrow> (error + product) \<times> state" where
  "addProduct s authHeader name desc price quantity gid =
     (case authMiddleware s authHeader of
        Inl e \<Rightarrow> (Inl e, s)
      | Inr reqUser \<Rightarrow> addProductHandler s reqUser name desc price quantity gid)"

section \<open>Orders\<close>

text \<open>The handler of \<^verbatim>\<open>POST /orders\<close>. \<open>now\<close> is \<^verbatim>\<open>new Date().toISOString()\<close>.\<close>

definition placeOrderHandler ::
  "state \<Rightarrow> user \<Rightarrow> jsval \<Rightarrow> jsval \<Rightarrow> string \<Rightarrow> string \<Rightarrow> (error + order) \<times> state" where
  "placeOrderHandler s reqUser productId qty gid now =
     (if \<not> strict_eq (u_type reqUser) (JStr ''buyer'') then (Inl OnlyBuyersCanPlaceOrders, s)
      else (case as_number qty of
              None \<Rightarrow> (Inl InvalidOrderData, s)
            | Some q \<Rightarrow>
                if \<not> truthy productId \<or> js_le q (Fin 0) then (Inl InvalidOrderData, s)
                else (case find (\<lambda>p. strict_eq (JStr (p_id p)) productId) (products s) of
                        None \<Rightarrow> (Inl ProductNotFound, s)
                      | Some product \<Rightarrow>
                          (let sold = soldQty (orders s) productId;
                               available = js_sub (p_quantity product) sold
                           in if js_lt available q then (Inl (QuantityExceedsAvailable q available), s)
                              else (let newOrder = \<lparr>o_id = gid,
                                                    o_productId = productId,
                                                    o_buyerId = u_id reqUser,
                                                    o_qty = q,
                                                    o_date = now\<rparr>
                                    in (Inr newOrder, s\<lparr>orders := orders s @ [newOrder]\<rparr>))))))"

definition placeOrder ::
  "state \<Rightarrow> string option \<Rightarrow> jsval \<Rightarrow> jsval \<Rightarrow> string \<Rightarrow> string \<Rightarrow> (error + order) \<times> state" where
  "placeOrder s authHeader productId qty gid now =
     (case authMiddleware s authHeader of
        Inl e \<Rightarrow> (Inl e, s)
      | Inr reqUser \<Rightarrow> placeOrderHandler s reqUser productId qty gid now)"

record buyer_order =
  bo_order :: order
  bo_productName :: jsval
  bo_farmerId :: "string option"

record farmer_order =
  fo_order :: order
  fo_buyerName :: jsval
  fo_productName :: jsval

datatype order_history = BuyerOrders "buyer_order list" | FarmerOrders "farmer_order list"

text \<open>\<^verbatim>\<open>products.find(p => p.id === o.productId)\<close> and
  \<^verbatim>\<open>product ? product.name : 'Unknown'\<close>.\<close>

definition productOf :: "product list \<Rightarrow> order \<Rightarrow> product option" where
  "productOf ps ord = find (\<lambda>p. strict_eq (JStr (p_id p)) (o_productId ord)) ps"

definition productName :: "product list \<Rightarrow> order \<Rightarrow> jsval" where
  "productName ps ord = (case productOf ps ord of Some p \<Rightarrow> p_name p | None \<Rightarrow> JStr ''Unknown'')"

text \<open>The handler of \<^verbatim>\<open>GET /orders\<close>.\<close>

definition getOrdersHandler :: "state \<Rightarrow> user \<Rightarrow> error + order_history" where
  "getOrdersHandler s reqUser =
     (if strict_eq (u_type reqUser) (JStr ''buyer'') then
        Inr (BuyerOrders
          (map (\<lambda>ord. \<lparr>bo_order = ord,
                       bo_productName = productName (products s) ord,
                       bo_farmerId = map_option p_farmerId (productOf (products s) ord)\<rparr>)
               (filter (\<lambda>ord. o_buyerId ord = u_id reqUser) (orders s))))
      else if strict_eq (u_type reqUser) (JStr ''farmer'') then
        (let farmerProds = map p_id (filter (\<lambda>p. p_farmerId p = u_id reqUser) (products s))
         in Inr (FarmerOrders
              (map (\<lambda>ord. \<lparr>fo_order = ord,
                           fo_buyerName = (case find (\<lambda>u. u_id u = o_buyerId ord) (users s) of
                                             Some buyer \<Rightarrow> u_name buyer
                                           | None \<Rightarrow> JStr ''Unknown''),
                           fo_productName = productName (products s) ord\<rparr>)
                   (filter (\<lambda>ord. list_ex (\<lambda>k. strict_eq (o_productId ord) (JStr k)) farmerProds)
                      (orders s)))))
      else Inl UnknownUserType)"

definition getOrders :: "state \<Rightarrow> string option \<Rightarrow> error + order_history" where
  "getOrders s authHeader =
     (case authMiddleware s authHeader of
        Inl e \<Rightarrow> Inl e
      | Inr reqUser \<Rightarrow> getOrdersHandler s reqUser)"

section \<open>Market trends\<close>

text \<open>
  \<^verbatim>\<open>GET /market-trends\<close> collects its result in \<^verbatim>\<open>const trendData = {}\<close>, an ordinary object
  whose prototype is \<^verbatim>\<open>Object.prototype\<close>. An access \<^verbatim>\<open>trendData[k]\<close> converts \<open>k\<close> to a
  string and finds the object's own property of that name, or else the property that
  \<^verbatim>\<open>Object.prototype\<close> has under that name (a function, or for \<^verbatim>\<open>__proto__\<close> the prototype
  itself: a truthy value in every case), or else \<^verbatim>\<open>undefined\<close>. The own properties are
  kept here as an association list in the order of their creation.
\<close>

record trend =
  totalPrice :: double
  count :: double
  totalSalesQty :: double
  avgPrice :: "double option"

definition objectPrototypeKeys :: "string list" where
  "objectPrototypeKeys =
     [''constructor'', ''__defineGetter__'', ''__defineSetter__'', ''hasOwnProperty'',
      ''__lookupGetter__'', ''__lookupSetter__'', ''isPrototypeOf'', ''propertyIsEnumerable'',
      ''toString'', ''valueOf'', ''__proto__'', ''toLocaleString'']"

datatype 'a property = Own 'a | Inherited | Missing

definition getProperty :: "(string \<times> 'a) list \<Rightarrow> string \<Rightarrow> 'a property" where
  "getProperty obj k =
     (case map_of obj k of
        Some v \<Rightarrow> Own v
      | None \<Rightarrow> if k \<in> set objectPrototypeKeys then Inherited else Missing)"

text \<open>An assignment to a field of the own property \<open>k\<close>. When \<open>k\<close> is not an own property
  the list is unchanged: the handlers then write to the inherited object, which is not part
  of \<^verbatim>\<open>trendData\<close> and not part of the response.\<close>

definition modify :: "string \<Rightarrow> ('a \<Rightarrow> 'a) \<Rightarrow> (string \<times> 'a) list \<Rightarrow> (string \<times> 'a) list" where
  "modify k f obj = map (\<lambda>(k', v). if k' = k then (k', f v) else (k', v)) obj"

text \<open>The body of \<^verbatim>\<open>products.forEach(p => ...)\<close>.\<close>

definition addPrice :: "(double \<Rightarrow> string) \<Rightarrow> (string \<times> trend) list \<Rightarrow> product \<Rightarrow> (string \<times> trend) list" where
  "addPrice ns trendData p =
     (let k = toString ns (p_name p);
          trendData1 =
            (case getProperty trendData k of
               Missing \<Rightarrow> trendData @ [(k, \<lparr>totalPrice = Fin 0, count = Fin 0, totalSalesQty = Fin 0, avgPrice = None\<rparr>)]
             | Inherited \<Rightarrow> trendData
             | Own t \<Rightarrow> trendData)
      in modify k (\<lambda>t. t\<lparr>totalPrice := js_add (totalPrice t) (p_price p), count := js_add (count t) (Fin 1)\<rparr>) trendData1)"

text \<open>The loop \<^verbatim>\<open>for(let key in trendData)\<close> over the own properties. (A property that
  \<^verbatim>\<open>Object.prototype\<close> gained from an earlier write through \<^verbatim>\<open>__proto__\<close> is enumerated
  as well; its value is a number, and the two assignments to a number's fields do nothing.)\<close>

definition setAverages :: "(string \<times> trend) list \<Rightarrow> (string \<times> trend) list" where
  "setAverages trendData =
     map (\<lambda>(k, t). (k, t\<lparr>avgPrice := Some (js_div (totalPrice t) (count t)), totalSalesQty := Fin 0\<rparr>)) trendData"

text \<open>The body of \<^verbatim>\<open>orders.forEach(order => ...)\<close>.\<close>

definition addSales ::
  "(double \<Rightarrow> string) \<Rightarrow> product list \<Rightarrow> (string \<times> trend) list \<Rightarrow> order \<Rightarrow> (string \<times> trend) list" where
  "addSales ns ps trendData ord =
     (case productOf ps ord of
        None \<Rightarrow> trendData
      | Some product \<Rightarrow>
          (let k = toString ns (p_name product) in
           case getProperty trendData k of
             Missing \<Rightarrow> trendData
           | Inherited \<Rightarrow> trendData
           | Own t \<Rightarrow> modify k (\<lambda>t. t\<lparr>totalSalesQty := js_add (totalSalesQty t) (o_qty ord)\<rparr>) trendData))"

text \<open>\<^verbatim>\<open>GET /market-trends\<close>.\<close>

definition marketTrends :: "(double \<Rightarrow> string) \<Rightarrow> state \<Rightarrow> (string \<times> trend) list" where
  "marketTrends ns s =
     foldl (addSales ns (products s))
       (setAverages (foldl (addPrice ns) [] (products s)))
       (orders s)"

section \<open>The server\<close>

text \<open>
  Node runs each handler to completion before it takes the next request, and no handler of
  \<^verbatim>\<open>server.js\<close> awaits anything: an execution of the server, however the requests overlap
  on the network, is a sequence of whole handler runs. What a handler takes from outside the
  request and the stores is its environment: the strings that \<^verbatim>\<open>genId()\<close> and
  \<^verbatim>\<open>genToken()\<close> return, the clock, and the rendering of numbers as strings.
  \<^verbatim>\<open>saveData\<close> copies an array to its file after each change; the stores here are the
  arrays in memory, and the write is taken to succeed.
\<close>

record env =
  e_id :: string
  e_token :: string
  e_now :: string
  e_numberToString :: "double \<Rightarrow> string"

datatype request =
    PostRegister jsval jsval
  | PostLogin jsval jsval
  | GetProducts
  | GetProductById string
  | PostProducts "string option" jsval jsval jsval jsval
  | PostOrders "string option" jsval jsval
  | GetOrders "string option"
  | GetMarketTrends
  | GetRoot

datatype response =
    UserJson user
  | ProductsJson "product_avail list"
  | ProductDetailJson product_detail
  | ProductJson product
  | OrderJson order
  | OrdersJson order_history
  | TrendsJson "(string \<times> trend) list"
  | Text string

fun handle :: "env \<Rightarrow> state \<Rightarrow> request \<Rightarrow> (error + response) \<times> state" where
  "handle e s (PostRegister name type) =
     (case register s name type (e_id e) (e_token e) of (r, s') \<Rightarrow> (map_sum id UserJson r, s'))"
| "handle e s (PostLogin name type) =
     (case login s name type (e_token e) of (r, s') \<Rightarrow> (map_sum id UserJson r, s'))"
| "handle e s GetProducts = (Inr (ProductsJson (getProducts s)), s)"
| "handle e s (GetProductById ident) = (map_sum id ProductDetailJson (getProductById s ident), s)"
| "handle e s (PostProducts authHeader name desc price quantity) =
     (case addProduct s authHeader name desc price quantity (e_id e) of
        (r, s') \<Rightarrow> (map_sum id ProductJson r, s'))"
| "handle e s (PostOrders authHeader productId qty) =
     (case placeOrder s authHeader productId qty (e_id e) (e_now e) of
        (r, s') \<Rightarrow> (map_sum id OrderJson r, s'))"
| "handle e s (GetOrders authHeader) = (map_sum id OrdersJson (getOrders s authHeader), s)"
| "handle e s GetMarketTrends = (Inr (TrendsJson (marketTrends (e_numberToString e) s)), s)"
| "handle e s GetRoot = (Inr (Text ''Agriculture Project Backend API is running.''), s)"

text \<open>A sequence of requests, each with its environment: the responses and the final stores.\<close>

fun run :: "state \<Rightarrow> (env \<times> request) list \<Rightarrow> (error + response) list \<times> state" where
  "run s [] = ([], s)"
| "run s ((e, r) # rest) =
     (case handle e s r of (x, s') \<Rightarrow> (case run s' rest of (xs, s'') \<Rightarrow> (x # xs, s'')))"

text \<open>The random strings of a request are fresh when they repeat no id and no token that is
  stored; a sequence is fresh when each of its requests is, in the state it runs in.\<close>

definition fresh :: "env \<Rightarrow> state \<Rightarrow> bool" where
  "fresh e s \<longleftrightarrow>
     e_id e \<notin> set (map u_id (users s)) \<and>
     e_id e \<notin> set (map p_id (products s)) \<and>
     e_id e \<notin> set (map o_id (orders s)) \<and>
     e_token e \<notin> set (map u_token (users s))"

fun fresh_run :: "state \<Rightarrow> (env \<times> request) list \<Rightarrow> bool" where
  "fresh_run s [] = True"
| "fresh_run s ((e, r) # rest) = (fresh e s \<and> fresh_run (snd (handle e s r)) rest)"

section \<open>Derived notions used by the properties\<close>

text \<open>The remaining quantity of a listing, as \<^verbatim>\<open>GET /products/:id\<close> reports it in
  \<^verbatim>\<open>quantityAvailable\<close>.\<close>

definition remaining :: "state \<Rightarrow> string \<Rightarrow> error + double" where
  "remaining s listingId = map_sum id pd_quantityAvailable (getProductById s listingId)"

text \<open>The availability that the handlers compute for a listing of the catalog:
  \<^verbatim>\<open>quantity - soldQty\<close>, in the arithmetic of numbers.\<close>

definition available :: "state \<Rightarrow> product \<Rightarrow> double" where
  "available s p = js_sub (p_quantity p) (soldQty (orders s) (JStr (p_id p)))"

text \<open>The quantity that a response commits against listing \<open>k\<close>: the \<^verbatim>\<open>qty\<close> of the order a
  successful \<^verbatim>\<open>POST /orders\<close> returns, and nothing for any other response.\<close>

fun orderedQty :: "string \<Rightarrow> error + response \<Rightarrow> double" where
  "orderedQty k (Inr (OrderJson ord)) = (if o_productId ord = JStr k then o_qty ord else Fin 0)"
| "orderedQty k other = Fin 0"

text \<open>The sum of a list of numbers as a rational, without any rounding; there is none when
  an element is not finite.\<close>

fun exactSum :: "double list \<Rightarrow> rat option" where
  "exactSum [] = Some 0"
| "exactSum (Fin a # xs) = map_option (\<lambda>t. a + t) (exactSum xs)"
| "exactSum (x # xs) = None"

text \<open>The quantity the ledger holds against listing \<open>k\<close>: the exact sum of its orders.\<close>

definition committedQty :: "state \<Rightarrow> string \<Rightarrow> rat option" where
  "committedQty s k = exactSum (map o_qty (filter (\<lambda>ord. o_productId ord = JStr k) (orders s)))"

text \<open>A number that counts: a non-negative integer.\<close>

fun counting :: "double \<Rightarrow> bool" where
  "counting (Fin r) = (of_int \<lfloor>r\<rfloor> = r \<and> 0 \<le> r)"
| "counting x = False"

text \<open>A quantity in a request body is safe when it is an integer of magnitude at most
  \<open>2 ^ 53 = 9007199254740992\<close> (JavaScript's \<^verbatim>\<open>Number.isSafeInteger\<close>, with \<open>2 ^ 53\<close> itself
  allowed); a body field that is not a number is rejected by the handlers and is not
  constrained. A request is safe when the quantity it sends is.\<close>

fun safeQuantity :: "jsval \<Rightarrow> bool" where
  "safeQuantity (JNum r) = (of_int \<lfloor>r\<rfloor> = r \<and> \<bar>r\<bar> \<le> 9007199254740992)"
| "safeQuantity v = True"

fun safe_request :: "request \<Rightarrow> bool" where
  "safe_request (PostProducts authHeader name desc price quantity) = safeQuantity quantity"
| "safe_request (PostOrders authHeader productId qty) = safeQuantity qty"
| "safe_request r = True"

definition safe_run :: "(env \<times> request) list \<Rightarrow> bool" where
  "safe_run reqs = list_all (\<lambda>(e, r). safe_request r) reqs"

text \<open>The \<^verbatim>\<open>Authorization\<close> header that presents a token.\<close>

definition bearer :: "string \<Rightarrow> string option" where
  "bearer token = Some (''Bearer '' @ token)"

text \<open>The stores are consistent when ids are unique, every order is for a listing of the
  catalog, and every listing is owned by a stored user.\<close>

definition consistent :: "state \<Rightarrow> bool" where
  "consistent s \<longleftrightarrow>
     distinct (map p_id (products s)) \<and>
     distinct (map u_id (users s)) \<and>
     (\<forall>ord\<in>set (orders s). \<exists>p\<in>set (products s). o_productId ord = JStr (p_id p)) \<and>
     (\<forall>p\<in>set (products s). \<exists>u\<in>set (users s). p_farmerId p = u_id u)"

text \<open>The stores are counted when every quantity in them is a non-negative integer, every
  listing's quantity is at most \<open>2 ^ 53\<close>, and no listing is oversold.\<close>

definition counted :: "state \<Rightarrow> bool" where
  "counted s \<longleftrightarrow>
     (\<forall>p\<in>set (products s). counting (p_quantity p) \<and> js_le (p_quantity p) (Fin 9007199254740992)) \<and>
     (\<forall>ord\<in>set (orders s). counting (o_qty ord)) \<and>
     (\<forall>p\<in>set (products s). \<exists>c. committedQty s (p_id p) = Some c \<and> js_le (Fin c) (p_quantity p))"

section \<open>A sample run\<close>

definition draws :: "string \<Rightarrow> string \<Rightarrow> env" where
  "draws gid gtoken =
     \<lparr>e_id = gid, e_token = gtoken, e_now = ''2024-05-01T10:00:00.000Z'', e_numberToString = (\<lambda>r. ''0'')\<rparr>"

definition alice :: user where
  "alice = \<lparr>u_id = ''a1'', u_name = JStr ''Alice'', u_type = JStr ''farmer'', u_token = ''ta''\<rparr>"

definition bob :: user where
  "bob = \<lparr>u_id = ''b1'', u_name = JStr ''Bob'', u_type = JStr ''buyer'', u_token = ''tb''\<rparr>"

definition tomato :: product where
  "tomato = \<lparr>p_id = ''p1'', p_farmerId = ''a1'', p_name = JStr ''Tomato'', p_desc = JStr [],
             p_price = Fin 2, p_quantity = Fin 10\<rparr>"

definition market :: state where
  "market = \<lparr>users = [alice, bob], products = [tomato], orders = []\<rparr>"

text \<open>The requests that lead from the empty stores to \<open>market\<close>.\<close>

definition setup_requests :: "(env \<times> request) list" where
  "setup_requests =
     [(draws ''a1'' ''ta'', PostRegister (JStr ''Alice'') (JStr ''farmer'')),
      (draws ''b1'' ''tb'', PostRegister (JStr ''Bob'') (JStr ''buyer'')),
      (draws ''p1'' ''tc'',
         PostProducts (bearer ''ta'') (JStr ''Tomato'') JUndefined (JNum 2) (JNum 10))]"

text \<open>Three orders against the listing: 4 of 10, then 7 (too many), then 6.\<close>

definition order_requests :: "(env \<times> request) list" where
  "order_requests =
     [(draws ''o1'' ''td'', PostOrders (bearer ''tb'') (JStr ''p1'') (JNum 4)),
      (draws ''o2'' ''te'', PostOrders (bearer ''tb'') (JStr ''p1'') (JNum 7)),
      (draws ''o3'' ''tf'', PostOrders (bearer ''tb'') (JStr ''p1'') (JNum 6))]"

text \<open>In \<open>market\<close>, Alice lists tomatoes a second time, at price 4, and Bob orders 3 of the
  first listing and 5 of the second.\<close>

definition tomato_requests :: "(env \<times> request) list" where
  "tomato_requests =
     [(draws ''p2'' ''tg'',
         PostProducts (bearer ''ta'') (JStr ''Tomato'') JUndefined (JNum 4) (JNum 10)),
      (draws ''o4'' ''th'', PostOrders (bearer ''tb'') (JStr ''p1'') (JNum 3)),
      (draws ''o5'' ''ti'', PostOrders (bearer ''tb'') (JStr ''p2'') (JNum 5))]"

text \<open>In \<open>market\<close>, Alice lists a product named \<open>constructor\<close>, and Bob orders 1 of it.\<close>

definition constructor_requests :: "(env \<times> request) list" where
  "constructor_requests =
     [(draws ''p3'' ''tj'',
         PostProducts (bearer ''ta'') (JStr ''constructor'') JUndefined (JNum 5) (JNum 10)),
      (draws ''o6'' ''tk'', PostOrders (bearer ''tb'') (JStr ''p3'') (JNum 1))]"

text \<open>In \<open>market\<close>, Alice lists \<open>2 ^ 53 + 2 = 9007199254740994\<close> grains of rice, and Bob orders
  \<open>2 ^ 53\<close> of them, then one, then one more. A fourth order asks for one more again.\<close>

definition rice :: product where
  "rice = \<lparr>p_id = ''p4'', p_farmerId = ''a1'', p_name = JStr ''Rice'', p_desc = JStr [],
           p_price = Fin 1, p_quantity = Fin 9007199254740994\<rparr>"

definition rice_requests :: "(env \<times> request) list" where
  "rice_requests =
     [(draws ''p4'' ''tl'',
         PostProducts (bearer ''ta'') (JStr ''Rice'') JUndefined (JNum 1) (JNum 9007199254740994)),
      (draws ''o7'' ''tm'', PostOrders (bearer ''tb'') (JStr ''p4'') (JNum 9007199254740992)),
      (draws ''o8'' ''tn'', PostOrders (bearer ''tb'') (JStr ''p4'') (JNum 1)),
      (draws ''o9'' ''to'', PostOrders (bearer ''tb'') (JStr ''p4'') (JNum 1))]"

definition rice_fourth :: "(env \<times> request) list" where
  "rice_fourth = [(draws ''o10'' ''tp'', PostOrders (bearer ''tb'') (JStr ''p4'') (JNum 1))]"

text \<open>The orders of the ledger after \<open>rice_requests\<close>, and the stores then.\<close>

definition rice_orders :: "order list" where
  "rice_orders =
     [\<lparr>o_id = ''o7'', o_productId = JStr ''p4'', o_buyerId = ''b1'',
       o_qty = Fin 9007199254740992, o_date = ''2024-05-01T10:00:00.000Z''\<rparr>,
      \<lparr>o_id = ''o8'', o_productId = JStr ''p4'', o_buyerId = ''b1'',
       o_qty = Fin 1, o_date = ''2024-05-01T10:00:00.000Z''\<rparr>,
      \<lparr>o_id = ''o9'', o_productId = JStr ''p4'', o_buyerId = ''b1'',
       o_qty = Fin 1, o_date = ''2024-05-01T10:00:00.000Z''\<rparr>]"

definition rice_market :: state where
  "rice_market = \<lparr>users = [alice, bob], products = [tomato, rice], orders = rice_orders\<rparr>"

text \<open>The stores after the fourth order is accepted.\<close>

definition oversold_market :: state where
  "oversold_market =
     rice_market\<lparr>orders := rice_orders @
       [\<lparr>o_id = ''o10'', o_productId = JStr ''p4'', o_buyerId = ''b1'',
         o_qty = Fin 1, o_date = ''2024-05-01T10:00:00.000Z''\<rparr>]\<rparr>"

text \<open>In \<open>market\<close>, Alice lists one unit of saffron, and Bob orders
  \<open>1 / 2 ^ 60 = 1 / 1152921504606846976\<close> of it and then the whole unit.\<close>

definition saffron :: product where
  "saffron = \<lparr>p_id = ''p5'', p_farmerId = ''a1'', p_name = JStr ''Saffron'', p_desc = JStr [],
              p_price = Fin 1, p_quantity = Fin 1\<rparr>"

definition saffron_requests :: "(env \<times> request) list" where
  "saffron_requests =
     [(draws ''p5'' ''tq'',
         PostProducts (bearer ''ta'') (JStr ''Saffron'') JUndefined (JNum 1) (JNum 1)),
      (draws ''o11'' ''tr'',
         PostOrders (bearer ''tb'') (JStr ''p5'') (JNum (1 / 1152921504606846976))),
      (draws ''o12'' ''ts'', PostOrders (bearer ''tb'') (JStr ''p5'') (JNum 1))]"

definition saffron_market :: state where
  "saffron_market =
     \<lparr>users = [alice, bob], products = [tomato, saffron],
      orders =
        [\<lparr>o_id = ''o11'', o_productId = JStr ''p5'', o_buyerId = ''b1'',
          o_qty = Fin (1 / 1152921504606846976), o_date = ''2024-05-01T10:00:00.000Z''\<rparr>,
         \<lparr>o_id = ''o12'', o_productId = JStr ''p5'', o_buyerId = ''b1'',
          o_qty = Fin 1, o_date = ''2024-05-01T10:00:00.000Z''\<rparr>]\<rparr>"

section \<open>Rounding to a double\<close>

declare halvings.simps [simp del] doublings.simps [simp del]

lemma halvings_bounds: "1 \<le> x \<Longrightarrow> 2 ^ halvings x \<le> x \<and> x < 2 * 2 ^ halvings x"
proof (induction x rule: halvings.induct)
  case (1 x)
  show ?case
  proof (cases "2 \<le> x")
    case True
    then have "1 \<le> x / 2" by simp
    with "1.IH"[OF True] have "2 ^ halvings (x / 2) \<le> x / 2 \<and> x / 2 < 2 * 2 ^ halvings (x / 2)" .
    moreover have "halvings x = Suc (halvings (x / 2))"
      using True by (subst halvings.simps) simp
    ultimately show ?thesis by simp
  next
    case False
    then have "halvings x = 0" by (subst halvings.simps) simp
    with False "1.prems" show ?thesis by simp
  qed
qed

lemma doublings_bounds:
  "0 < x \<Longrightarrow> x < 1 \<Longrightarrow> 1 \<le> 2 ^ doublings x * x \<and> 2 ^ doublings x * x < 2"
proof (induction x rule: doublings.induct)
  case (1 x)
  from "1.prems" have d: "doublings x = Suc (doublings (2 * x))"
    by (subst doublings.simps) simp
  show ?case
  proof (cases "2 * x < 1")
    case True
    with "1.IH" "1.prems" have "1 \<le> 2 ^ doublings (2 * x) * (2 * x) \<and> 2 ^ doublings (2 * x) * (2 * x) < 2"
      by simp
    then show ?thesis by (simp add: d mult.assoc)
  next
    case False
    then have "doublings (2 * x) = 0" by (subst doublings.simps) simp
    with False "1.prems" show ?thesis by (simp add: d)
  qed
qed

lemma log2floor_bounds:
  assumes "0 < x"
  shows "2 powi log2floor x \<le> x \<and> x < 2 powi (log2floor x + 1)"
proof (cases "1 \<le> x")
  case True
  with halvings_bounds[OF True] show ?thesis
    by (simp add: log2floor_def power_int_add)
next
  case False
  with assms doublings_bounds[of x] have b: "1 \<le> 2 ^ doublings x * x" "2 ^ doublings x * x < 2"
    by simp_all
  have p: "(0::rat) < 2 ^ doublings x" by simp
  from b(1) p have "1 / 2 ^ doublings x \<le> x"
    by (simp add: divide_le_eq mult.commute)
  moreover from b(2) p have "x < 2 / 2 ^ doublings x"
    by (simp add: less_divide_eq mult.commute)
  moreover have "(2::rat) powi (- int (doublings x)) = 1 / 2 ^ doublings x"
    by (simp add: power_int_minus divide_inverse)
  moreover have "(2::rat) powi (- int (doublings x) + 1) = 2 / 2 ^ doublings x"
    by (simp add: power_int_diff)
  moreover have "log2floor x = - int (doublings x)"
    using False by (simp add: log2floor_def)
  ultimately show ?thesis
    by metis
qed

lemma log2floor_unique:
  assumes "2 powi e \<le> x" and "x < 2 powi (e + 1)"
  shows "log2floor x = e"
proof -
  have pos: "0 < x"
    using assms(1) by (rule less_le_trans[rotated]) simp
  note b = log2floor_bounds[OF pos]
  have "\<not> e < log2floor x"
  proof
    assume "e < log2floor x"
    then have "(2::rat) powi (e + 1) \<le> 2 powi log2floor x"
      by (intro power_int_increasing) simp_all
    with b assms(2) show False by simp
  qed
  moreover have "\<not> log2floor x < e"
  proof
    assume "log2floor x < e"
    then have "(2::rat) powi (log2floor x + 1) \<le> 2 powi e"
      by (intro power_int_increasing) simp_all
    with b assms(1) show False by simp
  qed
  ultimately show ?thesis by simp
qed

lemma roundHalfEven_of_int [simp]: "roundHalfEven (of_int n) = n"
  by (simp add: roundHalfEven_def)

lemma roundHalfEven_le: "z \<le> of_int m \<Longrightarrow> roundHalfEven z \<le> m"
proof -
  assume z: "z \<le> of_int m"
  then have f: "\<lfloor>z\<rfloor> \<le> m" by (simp add: floor_le_iff)
  show ?thesis
  proof (cases "\<lfloor>z\<rfloor> = m")
    case True
    with z have "z = of_int m" by linarith
    then show ?thesis by simp
  next
    case False
    with f have "\<lfloor>z\<rfloor> + 1 \<le> m" by simp
    with f show ?thesis by (simp add: roundHalfEven_def Let_def)
  qed
qed

lemma toDouble_at:
  assumes lo: "2 powi e \<le> \<bar>x\<bar>" and hi: "\<bar>x\<bar> < 2 powi (e + 1)"
    and e: "- 1022 \<le> e" "e \<le> 1022"
  shows "toDouble x =
     Fin ((if 0 \<le> x then 1 else - 1) *
          (2 powi (e - 52) * of_int (roundHalfEven (\<bar>x\<bar> / 2 powi (e - 52)))))"
proof -
  define q :: rat where "q = 2 powi (e - 52)"
  define n where "n = roundHalfEven (\<bar>x\<bar> / q)"
  have q: "0 < q" by (simp add: q_def)
  have l: "log2floor \<bar>x\<bar> = e"
    using lo hi by (rule log2floor_unique)
  have split: "(2::rat) powi (e + 1) = q * 2 ^ 53"
    by (simp add: q_def power_int_diff power_int_add)
  from hi q have "\<bar>x\<bar> / q \<le> of_int (2 ^ 53)"
    by (simp add: split divide_le_eq mult.commute)
  then have "n \<le> 2 ^ 53"
    unfolding n_def by (rule roundHalfEven_le)
  then have "(of_int n :: rat) \<le> 2 ^ 53"
    by (metis of_int_le_iff of_int_numeral of_int_power)
  with q have "q * of_int n \<le> q * 2 ^ 53"
    by simp
  also have "\<dots> = 2 powi (e + 1)"
    by (simp add: split)
  also have "\<dots> \<le> 2 powi 1023"
    using e by (intro power_int_increasing) simp_all
  also have "\<dots> < 2 ^ 1024"
    by simp
  finally have small: "\<not> 2 ^ 1024 \<le> q * of_int n"
    by simp
  from e l have m: "max (log2floor \<bar>x\<bar>) (- 1022) = e"
    by simp
  have "toDouble x =
      (if 2 ^ 1024 \<le> q * of_int n then (if 0 < x then PInf else NInf)
       else Fin (if 0 \<le> x then q * of_int n else - (q * of_int n)))"
    unfolding toDouble_def Let_def m q_def n_def ..
  with small have "toDouble x = Fin ((if 0 \<le> x then 1 else - 1) * (q * of_int n))"
    by (cases "0 \<le> x") simp_all
  then show ?thesis
    unfolding n_def q_def .
qed

lemma roundHalfEven_0 [simp]: "roundHalfEven 0 = 0"
  using roundHalfEven_of_int[of 0] by simp

lemma toDouble_0 [simp]: "toDouble 0 = Fin 0"
proof -
  have "doublings 0 = 0" by (subst doublings.simps) simp
  then show ?thesis
    by (simp add: toDouble_def log2floor_def Let_def)
qed

lemma toDouble_whole:
  assumes w: "of_int \<lfloor>r\<rfloor> = r" and b: "\<bar>r\<bar> \<le> 9007199254740992"
  shows "toDouble r = Fin r"
proof (cases "r = 0")
  case True
  then show ?thesis by simp
next
  case False
  define m where "m = \<bar>\<lfloor>r\<rfloor>\<bar>"
  define h where "h = halvings \<bar>r\<bar>"
  have am: "\<bar>r\<bar> = of_int m"
    unfolding m_def using w by (metis of_int_abs)
  from False w have "\<lfloor>r\<rfloor> \<noteq> 0"
    by (metis of_int_0)
  then have "1 \<le> m"
    unfolding m_def by simp
  then have a1: "1 \<le> \<bar>r\<bar>"
    unfolding am by simp
  then have l: "log2floor \<bar>r\<bar> = int h"
    by (simp add: log2floor_def h_def)
  from a1 have pos: "0 < \<bar>r\<bar>"
    by simp
  from log2floor_bounds[OF pos] have lo: "2 powi int h \<le> \<bar>r\<bar>" and hi: "\<bar>r\<bar> < 2 powi (int h + 1)"
    by (simp_all add: l)
  from lo b have "(2::rat) ^ h \<le> 2 ^ 53"
    by simp
  then have h53: "h \<le> 53"
    using power_le_imp_le_exp[of "2::rat" h 53] by simp
  have exact: "2 powi (int h - 52) * of_int (roundHalfEven (\<bar>r\<bar> / 2 powi (int h - 52))) = \<bar>r\<bar>"
  proof (cases "h \<le> 52")
    case True
    define k where "k = 52 - h"
    have q: "(2::rat) powi (int h - 52) = 1 / 2 ^ k"
    proof -
      have "int h - 52 = - int k" using True by (simp add: k_def)
      then show ?thesis by (simp add: power_int_minus divide_inverse)
    qed
    have "of_int m * 2 ^ k = (of_int (m * 2 ^ k) :: rat)"
      by simp
    then have "roundHalfEven (of_int m * 2 ^ k) = m * 2 ^ k"
      by (simp only: roundHalfEven_of_int)
    then show ?thesis
      by (simp add: q am)
  next
    case False
    with h53 have h: "h = 53" by simp
    from lo b have r: "\<bar>r\<bar> = 9007199254740992"
      by (simp add: h)
    have "(9007199254740992::rat) / 2 = of_int 4503599627370496"
      by simp
    then have "roundHalfEven (9007199254740992 / 2) = 4503599627370496"
      by (metis roundHalfEven_of_int)
    then show ?thesis
      by (simp add: h r)
  qed
  have "toDouble r = Fin ((if 0 \<le> r then 1 else - 1) * \<bar>r\<bar>)"
    using toDouble_at[OF lo hi] h53 by (simp add: exact)
  then show ?thesis
    by (simp add: abs_if)
qed

lemma roundHalfEven_tie:
  "y = of_int f + 1 / 2 \<Longrightarrow> roundHalfEven y = (if even f then f else f + 1)"
proof -
  assume y: "y = of_int f + 1 / 2"
  have "\<lfloor>y\<rfloor> = f"
    unfolding y by (rule floor_unique) simp_all
  then show ?thesis
    by (simp add: roundHalfEven_def y)
qed

lemma roundHalfEven_up:
  "of_int f - 1 / 2 < y \<Longrightarrow> y < of_int f \<Longrightarrow> roundHalfEven y = f"
proof -
  assume a: "of_int f - 1 / 2 < y" "y < of_int f"
  have "\<lfloor>y\<rfloor> = f - 1"
    using a by (intro floor_unique) simp_all
  with a show ?thesis
    by (simp add: roundHalfEven_def)
qed

lemma roundHalfEven_down:
  "of_int f \<le> y \<Longrightarrow> y < of_int f + 1 / 2 \<Longrightarrow> roundHalfEven y = f"
proof -
  assume a: "of_int f \<le> y" "y < of_int f + 1 / 2"
  have "\<lfloor>y\<rfloor> = f"
    using a by (intro floor_unique) simp_all
  with a show ?thesis
    by (simp add: roundHalfEven_def)
qed

section \<open>Basic facts about the model\<close>

lemmas handler_defs =
  register_def login_def addProduct_def addProductHandler_def placeOrder_def placeOrderHandler_def
  authMiddleware_def invalid_name_type_def same_name_type_def bearer_def

lemmas sample_defs =
  init_def setup_requests_def order_requests_def market_def alice_def bob_def tomato_def draws_def

lemma strict_eq_JStr_right [simp]: "strict_eq v (JStr k) \<longleftrightarrow> v = JStr k"
  by (cases v) auto

lemma strict_eq_JStr_left [simp]: "strict_eq (JStr k) v \<longleftrightarrow> v = JStr k"
  by (cases v) auto

lemma as_number_Some: "as_number v = Some d \<longleftrightarrow> (\<exists>r. v = JNum r \<and> d = toDouble r)"
  by (cases v) auto

lemma as_number_None: "as_number v = None \<longleftrightarrow> (\<forall>r. v \<noteq> JNum r)"
  by (cases v) auto

lemma toDouble_not_NaN [simp]: "toDouble r \<noteq> NaN"
  by (simp add: toDouble_def Let_def)

lemma as_number_positive:
  "as_number v = Some q \<Longrightarrow> js_le q (Fin 0) \<longleftrightarrow> \<not> js_lt (Fin 0) q"
proof -
  assume "as_number v = Some q"
  then obtain r where "q = toDouble r" by (auto simp: as_number_Some)
  then have "q \<noteq> NaN" by simp
  then show ?thesis by (cases q) auto
qed

lemma toDouble_three_halves: "toDouble (3 / 2) = Fin (3 / 2)"
  using toDouble_at[of 0 "3 / 2"] roundHalfEven_of_int[of 6755399441055744]
  by simp

lemma toDouble_numeral [simp]:
  "numeral n \<le> (9007199254740992::rat) \<Longrightarrow> toDouble (numeral n) = Fin (numeral n)"
  by (rule toDouble_whole) simp_all

lemma toDouble_neg_numeral [simp]:
  "numeral n \<le> (9007199254740992::rat) \<Longrightarrow> toDouble (- numeral n) = Fin (- numeral n)"
  by (rule toDouble_whole) simp_all

lemma toDouble_1 [simp]: "toDouble 1 = Fin 1"
  by (rule toDouble_whole) simp_all

lemma whole_iff: "of_int \<lfloor>r\<rfloor> = r \<longleftrightarrow> r \<in> \<int>" for r :: rat
proof
  assume "of_int \<lfloor>r\<rfloor> = r"
  then show "r \<in> \<int>" by (metis Ints_of_int)
next
  assume "r \<in> \<int>"
  then obtain n where "r = of_int n" by (rule Ints_cases)
  then show "of_int \<lfloor>r\<rfloor> = r" by simp
qed

lemma counting_iff: "counting d \<longleftrightarrow> (\<exists>r. d = Fin r \<and> r \<in> \<int> \<and> 0 \<le> r)"
  by (cases d) (auto elim: Ints_cases)

lemma js_add_whole:
  assumes "a \<in> \<int>" "b \<in> \<int>" "\<bar>a + b\<bar> \<le> 9007199254740992"
  shows "js_add (Fin a) (Fin b) = Fin (a + b)"
proof -
  have "a + b \<in> \<int>" using assms by simp
  then have "of_int \<lfloor>a + b\<rfloor> = a + b" by (simp add: whole_iff)
  then show ?thesis using assms(3) by (simp add: toDouble_whole)
qed

lemma js_sub_whole:
  assumes "a \<in> \<int>" "b \<in> \<int>" "\<bar>a - b\<bar> \<le> 9007199254740992"
  shows "js_sub (Fin a) (Fin b) = Fin (a - b)"
  using js_add_whole[of a "- b"] assms by (simp add: js_sub_def)

lemma exactSum_append:
  "exactSum (xs @ ys) =
     (case exactSum xs of None \<Rightarrow> None | Some a \<Rightarrow> map_option (\<lambda>t. a + t) (exactSum ys))"
proof (induction xs)
  case Nil
  show ?case by (cases "exactSum ys") simp_all
next
  case (Cons x xs)
  then show ?case
    by (cases x; cases "exactSum ys") (auto simp: add.assoc split: option.splits)
qed

lemma exactSum_counting:
  "list_all counting xs \<Longrightarrow> \<exists>t. exactSum xs = Some t \<and> t \<in> \<int> \<and> 0 \<le> t"
proof (induction xs)
  case Nil
  show ?case by simp
next
  case (Cons x xs)
  then obtain t where t: "exactSum xs = Some t" "t \<in> \<int>" "0 \<le> t" by auto
  from Cons.prems obtain r where r: "x = Fin r" "r \<in> \<int>" "0 \<le> r"
    by (auto simp: counting_iff)
  show ?case using t r by simp
qed

text \<open>As long as the sum stays within \<open>2 ^ 53\<close>, adding up counting numbers one after the
  other rounds nothing.\<close>

lemma foldl_js_add_exact:
  assumes "list_all counting xs" "exactSum xs = Some t" "a \<in> \<int>" "0 \<le> a"
    and "a + t \<le> 9007199254740992"
  shows "foldl js_add (Fin a) xs = Fin (a + t)"
  using assms
proof (induction xs arbitrary: a t)
  case Nil
  then show ?case by simp
next
  case (Cons x xs)
  from Cons.prems(1) obtain r where r: "x = Fin r" "r \<in> \<int>" "0 \<le> r"
    by (auto simp: counting_iff)
  from Cons.prems(1) have rest: "list_all counting xs" by simp
  then obtain t' where t': "exactSum xs = Some t'" "t' \<in> \<int>" "0 \<le> t'"
    using exactSum_counting by blast
  with Cons.prems(2) r have t: "t = r + t'" by simp
  have ar: "\<bar>a + r\<bar> \<le> 9007199254740992"
    using Cons.prems(4,5) r(3) t'(3) t by simp
  have step: "js_add (Fin a) (Fin r) = Fin (a + r)"
    using js_add_whole[OF Cons.prems(3) r(2) ar] .
  have "foldl js_add (Fin (a + r)) xs = Fin (a + r + t')"
    using Cons.IH[OF rest t'(1), of "a + r"] Cons.prems(3,4,5) r t by (simp add: add.assoc)
  moreover have "foldl js_add (Fin a) (x # xs) = foldl js_add (js_add (Fin a) (Fin r)) xs"
    by (simp add: r del: js_add.simps)
  ultimately show ?case by (simp only: step t add.assoc)
qed

lemma soldQty_filter:
  "soldQty os (JStr k) =
     foldl js_add (Fin 0) (map o_qty (filter (\<lambda>ord. o_productId ord = JStr k) os))"
  by (simp add: soldQty_def foldl_map)

lemma soldQty_exact:
  assumes "\<forall>ord\<in>set (orders s). o_productId ord = JStr k \<longrightarrow> counting (o_qty ord)"
    and "committedQty s k = Some c" "c \<le> 9007199254740992"
  shows "soldQty (orders s) (JStr k) = Fin c"
proof -
  let ?qs = "map o_qty (filter (\<lambda>ord. o_productId ord = JStr k) (orders s))"
  have "list_all counting ?qs" using assms(1) by (simp add: list_all_iff)
  moreover have "exactSum ?qs = Some c" using assms(2) by (simp add: committedQty_def)
  ultimately have "foldl js_add (Fin 0) ?qs = Fin (0 + c)"
    using assms(3) by (intro foldl_js_add_exact) simp_all
  then show ?thesis by (simp add: soldQty_filter)
qed

lemma committedQty_counting:
  assumes "\<forall>ord\<in>set (orders s). o_productId ord = JStr k \<longrightarrow> counting (o_qty ord)"
  shows "\<exists>c. committedQty s k = Some c \<and> c \<in> \<int> \<and> 0 \<le> c"
  unfolding committedQty_def
  by (rule exactSum_counting) (use assms in \<open>simp add: list_all_iff\<close>)

lemma find_p_id: "find (\<lambda>p. p_id p = k) ps = Some p \<Longrightarrow> p_id p = k"
  by (induction ps) (auto split: if_splits)

lemma authMiddleware_users: "users s' = users s \<Longrightarrow> authMiddleware s' h = authMiddleware s h"
  by (auto simp: authMiddleware_def split: option.splits)

lemma run_setup:
  "run init setup_requests =
     ([Inr (UserJson alice), Inr (UserJson bob), Inr (ProductJson tomato)], market)"
  by (simp add: sample_defs handler_defs Let_def)

lemma fresh_setup: "fresh_run init setup_requests"
  by (simp add: sample_defs handler_defs fresh_def Let_def)

lemma auth_alice: "authMiddleware market (bearer ''ta'') = Inr alice"
  by (simp add: authMiddleware_def bearer_def market_def alice_def bob_def)

lemma auth_bob: "authMiddleware market (bearer ''tb'') = Inr bob"
  by (simp add: authMiddleware_def bearer_def market_def alice_def bob_def)

subsection \<open>What the order handler can return\<close>

lemma placeOrderHandler_accepts:
  assumes "u_type u = JStr ''buyer''" "k \<noteq> []" "as_number qty = Some q" "\<not> js_le q (Fin 0)"
    and "find (\<lambda>p. p_id p = k) (products s) = Some p"
    and "\<not> js_lt (js_sub (p_quantity p) (soldQty (orders s) (JStr k))) q"
  shows "placeOrderHandler s u (JStr k) qty gid now =
     (Inr \<lparr>o_id = gid, o_productId = JStr k, o_buyerId = u_id u, o_qty = q, o_date = now\<rparr>,
      s\<lparr>orders := orders s @
          [\<lparr>o_id = gid, o_productId = JStr k, o_buyerId = u_id u, o_qty = q, o_date = now\<rparr>]\<rparr>)"
  using assms
  by (simp add: placeOrderHandler_def Let_def)

lemma placeOrderHandler_rejects:
  assumes "u_type u = JStr ''buyer''" "k \<noteq> []" "as_number qty = Some q" "\<not> js_le q (Fin 0)"
    and "find (\<lambda>p. p_id p = k) (products s) = Some p"
    and "js_lt (js_sub (p_quantity p) (soldQty (orders s) (JStr k))) q"
  shows "placeOrderHandler s u (JStr k) qty gid now =
     (Inl (QuantityExceedsAvailable q (js_sub (p_quantity p) (soldQty (orders s) (JStr k)))), s)"
  using assms
  by (simp add: placeOrderHandler_def Let_def)

lemma placeOrderHandler_result:
  "(\<exists>e. placeOrderHandler s u p q gid now = (Inl e, s)) \<or>
   (\<exists>ord. placeOrderHandler s u p q gid now = (Inr ord, s\<lparr>orders := orders s @ [ord]\<rparr>))"
  by (simp add: placeOrderHandler_def Let_def split: option.splits)

lemma placeOrder_result:
  "(\<exists>e. placeOrder s a p q gid now = (Inl e, s)) \<or>
   (\<exists>ord. placeOrder s a p q gid now = (Inr ord, s\<lparr>orders := orders s @ [ord]\<rparr>))"
  using placeOrderHandler_result[of s _ p q gid now]
  by (simp add: placeOrder_def split: sum.splits)

subsection \<open>Handlers that leave the ledger alone\<close>

lemma register_orders: "orders (snd (register s n t gid gtoken)) = orders s"
  by (simp add: register_def Let_def)

lemma login_orders: "orders (snd (login s n t gtoken)) = orders s"
  by (simp add: login_def split: option.splits)

lemma addProduct_orders: "orders (snd (addProduct s a n d p q gid)) = orders s"
  by (simp add: addProduct_def addProductHandler_def Let_def split: sum.splits option.splits)

lemma handle_orders_extend: "\<exists>appended. orders (snd (handle e s r)) = orders s @ appended"
proof (cases r)
  case (PostOrders a p q)
  from placeOrder_result[of s a p q "e_id e" "e_now e"] show ?thesis
    by (auto simp: PostOrders)
qed (simp_all add: register_orders login_orders addProduct_orders case_prod_beta)

lemma run_orders_extend: "\<exists>appended. orders (snd (run s reqs)) = orders s @ appended"
proof (induction reqs arbitrary: s)
  case Nil
  show ?case by simp
next
  case (Cons er rest)
  obtain e r where er: "er = (e, r)" by (cases er)
  obtain ext where ext: "orders (snd (handle e s r)) = orders s @ ext"
    using handle_orders_extend by blast
  from Cons.IH[of "snd (handle e s r)"] obtain ext'
    where "orders (snd (run (snd (handle e s r)) rest)) = orders (snd (handle e s r)) @ ext'" ..
  with ext show ?case
    by (simp add: er case_prod_beta)
qed

section \<open>Availability\<close>

lemma remaining_eq:
  "find (\<lambda>p. p_id p = k) (products s) = Some p \<Longrightarrow>
     remaining s k = Inr (js_sub (p_quantity p) (soldQty (orders s) (JStr k)))"
  using find_p_id[of k "products s" p]
  by (simp add: remaining_def getProductById_def Let_def)

text \<open>Two roundings that the sample runs meet: \<open>2 ^ 53 + 1\<close> is halfway between two doubles
  and goes to the even one, \<open>2 ^ 53\<close>; \<open>2 ^ 53 + 2\<close> is a double.\<close>

lemma toDouble_above_2_53: "toDouble 9007199254740993 = Fin 9007199254740992"
  using toDouble_at[of 53 9007199254740993]
    roundHalfEven_tie[of "9007199254740993 / 2" 4503599627370496]
  by simp

lemma toDouble_rice: "toDouble 9007199254740994 = Fin 9007199254740994"
  using toDouble_at[of 53 9007199254740994] roundHalfEven_of_int[of 4503599627370497]
  by simp

lemma run_rice: "snd (run market rice_requests) = rice_market"
  by (simp add: rice_requests_def rice_market_def rice_orders_def rice_def sample_defs
      handler_defs soldQty_def js_sub_def Let_def toDouble_rice toDouble_above_2_53)

text \<open>
  C2, as the specification states it, fails on the code. Alice lists 9007199254740994 grains
  of rice, and Bob's orders of 9007199254740992, 1 and 1 are accepted: the ledger then holds
  9007199254740994 against the listing, all of it, and \<^verbatim>\<open>GET /products/:id\<close> reports that 2
  remain, because \<^verbatim>\<open>9007199254740992 + 1\<close> is \<^verbatim>\<open>9007199254740992\<close> in the arithmetic of
  numbers.
\<close>

theorem remaining_counterexample:
  "snd (run market rice_requests) = rice_market \<and>
   rice \<in> set (products rice_market) \<and>
   p_id rice = ''p4'' \<and>
   p_quantity rice = Fin 9007199254740994 \<and>
   committedQty rice_market ''p4'' = Some 9007199254740994 \<and>
   remaining rice_market ''p4'' = Inr (Fin 2) \<and>
   remaining rice_market ''p4'' \<noteq> Inr (Fin (9007199254740994 - 9007199254740994))"
  by (simp add: run_rice)
    (simp add: rice_market_def rice_orders_def rice_def tomato_def committedQty_def
      remaining_def getProductById_def soldQty_def js_sub_def Let_def toDouble_above_2_53)

text \<open>
  C2, amended. For an existing listing \<open>k\<close> the remaining quantity that
  \<^verbatim>\<open>GET /products/:id\<close> reports is the listing's \<^verbatim>\<open>quantity\<close> minus the sum of \<^verbatim>\<open>qty\<close>
  over the orders whose \<^verbatim>\<open>productId\<close> is \<open>k\<close>, the sum added up from 0 in ledger order and
  the difference taken, each step rounded to a double. When the quantity of the listing and
  of each of its orders is a non-negative integer, and the quantity and the exact sum \<open>c\<close> of
  the orders are at most \<open>2 ^ 53\<close>, nothing is rounded and the remaining quantity is exactly
  the quantity minus \<open>c\<close>. For a listing of quantity 10 with no orders it is 10; an order of 4
  by a buyer succeeds and leaves 6; a following order of 7 fails with
  \<open>InsufficientQuantity 7 6\<close>, leaves the stores as they were, and the remaining quantity is
  still 6.
\<close>

theorem remaining_is_total_minus_committed:
  "(\<forall>p. find (\<lambda>p. p_id p = k) (products s) = Some p \<longrightarrow>
        remaining s k = Inr (js_sub (p_quantity p) (soldQty (orders s) (JStr k)))) \<and>
   (\<forall>p c. find (\<lambda>p. p_id p = k) (products s) = Some p \<and>
        counting (p_quantity p) \<and> js_le (p_quantity p) (Fin 9007199254740992) \<and>
        (\<forall>ord\<in>set (orders s). o_productId ord = JStr k \<longrightarrow> counting (o_qty ord)) \<and>
        committedQty s k = Some c \<and> c \<le> 9007199254740992 \<longrightarrow>
      (\<exists>Q. p_quantity p = Fin Q \<and> remaining s k = Inr (Fin (Q - c)))) \<and>
   (\<forall>p buyer. find (\<lambda>p. p_id p = k) (products s) = Some p \<and> k \<noteq> [] \<and> p_quantity p = Fin 10 \<and>
        filter (\<lambda>ord. o_productId ord = JStr k) (orders s) = [] \<and>
        authMiddleware s authHeader = Inr buyer \<and> u_type buyer = JStr ''buyer'' \<longrightarrow>
      remaining s k = Inr (Fin 10) \<and>
      (let first = placeOrder s authHeader (JStr k) (JNum 4) gid now; s1 = snd first;
           second = placeOrder s1 authHeader (JStr k) (JNum 7) gid' now'
       in fails_with first = None \<and>
          remaining s1 k = Inr (Fin 6) \<and>
          fst second = Inl (QuantityExceedsAvailable (Fin 7) (Fin 6)) \<and>
          fails_with second = Some (InsufficientQuantity (Fin 7) (Fin 6)) \<and>
          snd second = s1 \<and>
          remaining (snd second) k = Inr (Fin 6)))"
proof (intro conjI allI impI; (elim conjE)?)
  fix p
  assume "find (\<lambda>p. p_id p = k) (products s) = Some p"
  then show "remaining s k = Inr (js_sub (p_quantity p) (soldQty (orders s) (JStr k)))"
    by (rule remaining_eq)
next
  fix p c
  assume f: "find (\<lambda>p. p_id p = k) (products s) = Some p"
    and q: "counting (p_quantity p)" and qmax: "js_le (p_quantity p) (Fin 9007199254740992)"
    and os: "\<forall>ord\<in>set (orders s). o_productId ord = JStr k \<longrightarrow> counting (o_qty ord)"
    and c: "committedQty s k = Some c" and cmax: "c \<le> 9007199254740992"
  from q obtain Q where Q: "p_quantity p = Fin Q" "Q \<in> \<int>" "0 \<le> Q"
    by (auto simp: counting_iff)
  from qmax Q have Qmax: "Q \<le> 9007199254740992" by simp
  from committedQty_counting[OF os] c have cint: "c \<in> \<int>" and cpos: "0 \<le> c"
    by auto
  have sold: "soldQty (orders s) (JStr k) = Fin c"
    using os c cmax by (rule soldQty_exact)
  have "\<bar>Q - c\<bar> \<le> 9007199254740992"
    using Q(3) Qmax cpos cmax by simp
  with Q(2) cint have "js_sub (Fin Q) (Fin c) = Fin (Q - c)"
    by (rule js_sub_whole)
  then have "remaining s k = Inr (Fin (Q - c))"
    by (simp add: remaining_eq[OF f] Q(1) sold)
  with Q(1) show "\<exists>Q. p_quantity p = Fin Q \<and> remaining s k = Inr (Fin (Q - c))"
    by blast
next
  fix p buyer
  assume "find (\<lambda>p. p_id p = k) (products s) = Some p" "p_quantity p = Fin 10"
    "filter (\<lambda>ord. o_productId ord = JStr k) (orders s) = []"
  then show "remaining s k = Inr (Fin 10)"
    by (simp add: remaining_eq soldQty_filter js_sub_def)
next
  fix p buyer
  assume f: "find (\<lambda>p. p_id p = k) (products s) = Some p" and k: "k \<noteq> []"
    and q: "p_quantity p = Fin 10"
    and c: "filter (\<lambda>ord. o_productId ord = JStr k) (orders s) = []"
    and a: "authMiddleware s authHeader = Inr buyer" and b: "u_type buyer = JStr ''buyer''"
  define ord where
    "ord = \<lparr>o_id = gid, o_productId = JStr k, o_buyerId = u_id buyer, o_qty = Fin 4, o_date = now\<rparr>"
  define s1 where "s1 = s\<lparr>orders := orders s @ [ord]\<rparr>"
  have sold0: "soldQty (orders s) (JStr k) = Fin 0"
    by (simp add: soldQty_filter c)
  have "placeOrderHandler s buyer (JStr k) (JNum 4) gid now = (Inr ord, s1)"
    unfolding ord_def s1_def
    by (rule placeOrderHandler_accepts[OF b k _ _ f]) (simp_all add: q sold0 js_sub_def)
  then have first: "placeOrder s authHeader (JStr k) (JNum 4) gid now = (Inr ord, s1)"
    by (simp add: placeOrder_def a)
  have auth1: "authMiddleware s1 authHeader = Inr buyer"
    using a authMiddleware_users[of s1 s authHeader] by (simp add: s1_def)
  have sold1: "soldQty (orders s1) (JStr k) = Fin 4"
    by (simp add: soldQty_filter s1_def c ord_def)
  have find1: "find (\<lambda>p. p_id p = k) (products s1) = Some p"
    using f by (simp add: s1_def)
  have avail1: "js_sub (p_quantity p) (soldQty (orders s1) (JStr k)) = Fin 6"
    by (simp add: q sold1 js_sub_def)
  have "placeOrderHandler s1 buyer (JStr k) (JNum 7) gid' now' =
      (Inl (QuantityExceedsAvailable (Fin 7)
              (js_sub (p_quantity p) (soldQty (orders s1) (JStr k)))), s1)"
    by (rule placeOrderHandler_rejects[OF b k _ _ find1]) (simp_all add: avail1)
  then have second:
    "placeOrder s1 authHeader (JStr k) (JNum 7) gid' now' =
       (Inl (QuantityExceedsAvailable (Fin 7) (Fin 6)), s1)"
    by (simp add: placeOrder_def auth1 avail1)
  have rem1: "remaining s1 k = Inr (Fin 6)"
    by (simp add: remaining_eq[OF find1] avail1)
  show "let first = placeOrder s authHeader (JStr k) (JNum 4) gid now; s1 = snd first;
           second = placeOrder s1 authHeader (JStr k) (JNum 7) gid' now'
       in fails_with first = None \<and>
          remaining s1 k = Inr (Fin 6) \<and>
          fst second = Inl (QuantityExceedsAvailable (Fin 7) (Fin 6)) \<and>
          fails_with second = Some (InsufficientQuantity (Fin 7) (Fin 6)) \<and>
          snd second = s1 \<and>
          remaining (snd second) k = Inr (Fin 6)"
    by (simp add: first second rem1 Let_def)
qed

text \<open>The listing \<open>p1\<close> of the sample run: 10 in stock, no orders yet, and Bob is a buyer.
  After Bob's orders of 4 and 6 the ledger holds 10, and nothing remains.\<close>

theorem remaining_is_total_minus_committed_witness:
  "remaining market ''p1'' = Inr (Fin 10) \<and>
   fails_with (placeOrder market (bearer ''tb'') (JStr ''p1'') (JNum 4) ''o1'' ''t1'') = None \<and>
   remaining (snd (placeOrder market (bearer ''tb'') (JStr ''p1'') (JNum 4) ''o1'' ''t1'')) ''p1'' =
     Inr (Fin 6) \<and>
   fst (placeOrder (snd (placeOrder market (bearer ''tb'') (JStr ''p1'') (JNum 4) ''o1'' ''t1''))
          (bearer ''tb'') (JStr ''p1'') (JNum 7) ''o2'' ''t2'') =
     Inl (QuantityExceedsAvailable (Fin 7) (Fin 6)) \<and>
   committedQty (snd (run market order_requests)) ''p1'' = Some 10 \<and>
   remaining (snd (run market order_requests)) ''p1'' = Inr (Fin 0)"
proof -
  have h: "find (\<lambda>p. p_id p = ''p1'') (products market) = Some tomato \<and> ''p1'' \<noteq> [] \<and>
      p_quantity tomato = Fin 10 \<and>
      filter (\<lambda>ord. o_productId ord = JStr ''p1'') (orders market) = [] \<and>
      authMiddleware market (bearer ''tb'') = Inr bob \<and> u_type bob = JStr ''buyer''"
    by (simp add: auth_bob) (simp add: market_def tomato_def bob_def)
  from remaining_is_total_minus_committed
         [of "''p1''" market "bearer ''tb''" "''o1''" "''t1''" "''o2''" "''t2''",
          THEN conjunct2, THEN conjunct2, rule_format, of tomato bob] h
  have scenario: "remaining market ''p1'' = Inr (Fin 10) \<and>
     fails_with (placeOrder market (bearer ''tb'') (JStr ''p1'') (JNum 4) ''o1'' ''t1'') = None \<and>
     remaining (snd (placeOrder market (bearer ''tb'') (JStr ''p1'') (JNum 4) ''o1'' ''t1'')) ''p1'' =
       Inr (Fin 6) \<and>
     fst (placeOrder (snd (placeOrder market (bearer ''tb'') (JStr ''p1'') (JNum 4) ''o1'' ''t1''))
            (bearer ''tb'') (JStr ''p1'') (JNum 7) ''o2'' ''t2'') =
       Inl (QuantityExceedsAvailable (Fin 7) (Fin 6))"
    by (simp add: Let_def)
  define after where "after = snd (run market order_requests)"
  have after: "after =
      market\<lparr>orders :=
        [\<lparr>o_id = ''o1'', o_productId = JStr ''p1'', o_buyerId = ''b1'', o_qty = Fin 4,
           o_date = ''2024-05-01T10:00:00.000Z''\<rparr>,
         \<lparr>o_id = ''o3'', o_productId = JStr ''p1'', o_buyerId = ''b1'', o_qty = Fin 6,
           o_date = ''2024-05-01T10:00:00.000Z''\<rparr>]\<rparr>"
    unfolding after_def by (simp add: sample_defs handler_defs soldQty_def js_sub_def Let_def)
  have g: "find (\<lambda>p. p_id p = ''p1'') (products after) = Some tomato \<and>
      counting (p_quantity tomato) \<and> js_le (p_quantity tomato) (Fin 9007199254740992) \<and>
      (\<forall>ord\<in>set (orders after). o_productId ord = JStr ''p1'' \<longrightarrow> counting (o_qty ord)) \<and>
      committedQty after ''p1'' = Some 10 \<and> (10::rat) \<le> 9007199254740992"
    by (simp add: after committedQty_def) (simp add: market_def tomato_def)
  from remaining_is_total_minus_committed
         [of "''p1''" after "bearer ''tb''" "''o1''" "''t1''" "''o2''" "''t2''",
          THEN conjunct2, THEN conjunct1, rule_format, of tomato 10] g
  obtain Q where "p_quantity tomato = Fin Q" "remaining after ''p1'' = Inr (Fin (Q - 10))"
    by blast
  then have "remaining after ''p1'' = Inr (Fin 0)"
    by (simp add: tomato_def)
  with g scenario show ?thesis
    by (simp add: after_def)
qed

section \<open>Order placement: failures\<close>

text \<open>
  C3, as the specification states it, fails on the code. The handler validates the body
  before it looks the listing up, and it asks only for a number greater than 0: in the sample
  market, Bob's order of quantity 0 for the unknown listing \<open>nope\<close> is answered with
  \<^verbatim>\<open>400 Invalid order data\<close> (InvalidInput, not NotFound), and his order of quantity
  \<open>3/2\<close> for the listing \<open>p1\<close> is accepted and recorded.
\<close>

theorem placeOrder_failures_counterexample:
  "authMiddleware market (bearer ''tb'') = Inr bob \<and>
   u_type bob = JStr ''buyer'' \<and>
   remaining market ''nope'' = Inl ProductNotFound \<and>
   placeOrder market (bearer ''tb'') (JStr ''nope'') (JNum 0) ''o1'' ''t1'' = (Inl InvalidOrderData, market) \<and>
   fails_with (placeOrder market (bearer ''tb'') (JStr ''nope'') (JNum 0) ''o1'' ''t1'') = Some InvalidInput \<and>
   fails_with (placeOrder market (bearer ''tb'') (JStr ''nope'') (JNum 0) ''o1'' ''t1'') \<noteq> Some NotFound \<and>
   remaining market ''p1'' = Inr (Fin 10) \<and>
   placeOrder market (bearer ''tb'') (JStr ''p1'') (JNum (3 / 2)) ''o1'' ''t1'' =
     (Inr \<lparr>o_id = ''o1'', o_productId = JStr ''p1'', o_buyerId = ''b1'', o_qty = Fin (3 / 2), o_date = ''t1''\<rparr>,
      market\<lparr>orders := [\<lparr>o_id = ''o1'', o_productId = JStr ''p1'', o_buyerId = ''b1'',
                           o_qty = Fin (3 / 2), o_date = ''t1''\<rparr>]\<rparr>)"
  by (simp add: placeOrder_def placeOrderHandler_def authMiddleware_def bearer_def soldQty_def
      remaining_def getProductById_def Let_def market_def alice_def bob_def tomato_def
      toDouble_three_halves js_sub_def)

text \<open>
  C3, amended. For a call of \<^verbatim>\<open>POST /orders\<close> by an authenticated caller: if the caller's
  \<^verbatim>\<open>type\<close> is not \<^verbatim>\<open>buyer\<close> it fails with Forbidden; otherwise, if \<^verbatim>\<open>productId\<close> is
  missing or falsy, or \<^verbatim>\<open>qty\<close> is not a number greater than 0, it fails with InvalidInput;
  otherwise, if no listing has the id \<^verbatim>\<open>productId\<close>, it fails with NotFound. Every failing
  call leaves the three stores as they were, so no order is appended.
\<close>

theorem placeOrder_failures:
  assumes "authMiddleware s authHeader = Inr caller"
  shows "let r = placeOrder s authHeader productId qty gid now in
     (\<not> strict_eq (u_type caller) (JStr ''buyer'') \<longrightarrow> fails_with r = Some Forbidden) \<and>
     (strict_eq (u_type caller) (JStr ''buyer'') \<and>
        (\<not> truthy productId \<or> (\<forall>q. as_number qty = Some q \<longrightarrow> \<not> js_lt (Fin 0) q)) \<longrightarrow>
          fails_with r = Some InvalidInput) \<and>
     (strict_eq (u_type caller) (JStr ''buyer'') \<and> truthy productId \<and> (\<exists>q. as_number qty = Some q \<and> js_lt (Fin 0) q) \<and>
        find (\<lambda>p. strict_eq (JStr (p_id p)) productId) (products s) = None \<longrightarrow>
          fails_with r = Some NotFound) \<and>
     (fails_with r \<noteq> None \<longrightarrow> snd r = s \<and> orders (snd r) = orders s)"
  using assms
  by (auto simp: placeOrder_def placeOrderHandler_def Let_def as_number_positive split: option.splits)

text \<open>In the sample market: Alice, a farmer, orders; Bob orders a quantity that is a string;
  Bob orders from a listing that does not exist.\<close>

theorem placeOrder_failures_witness:
  "fails_with (placeOrder market (bearer ''ta'') (JStr ''p1'') (JNum 1) ''o1'' ''t1'') = Some Forbidden \<and>
   fails_with (placeOrder market (bearer ''tb'') (JStr ''p1'') (JStr ''1'') ''o1'' ''t1'') = Some InvalidInput \<and>
   fails_with (placeOrder market (bearer ''tb'') (JStr ''nope'') (JNum 1) ''o1'' ''t1'') = Some NotFound \<and>
   orders (snd (placeOrder market (bearer ''tb'') (JStr ''nope'') (JNum 1) ''o1'' ''t1'')) = []"
proof -
  have a: "\<not> strict_eq (u_type alice) (JStr ''buyer'')"
    and b: "strict_eq (u_type bob) (JStr ''buyer'')"
    and n: "find (\<lambda>p. strict_eq (JStr (p_id p)) (JStr ''nope'')) (products market) = None"
    and m: "orders market = []"
    by (simp_all add: alice_def bob_def market_def tomato_def)
  from placeOrder_failures[OF auth_alice, of "JStr ''p1''" "JNum 1" "''o1''" "''t1''"]
       placeOrder_failures[OF auth_bob, of "JStr ''p1''" "JStr ''1''" "''o1''" "''t1''"]
       placeOrder_failures[OF auth_bob, of "JStr ''nope''" "JNum 1" "''o1''" "''t1''"]
       a b n m
  show ?thesis
    by (simp add: Let_def)
qed

section \<open>Registration\<close>

text \<open>
  C4. For a non-empty name and one of the two roles, \<^verbatim>\<open>POST /register\<close> fails with
  DuplicateActor exactly when a stored user has the same name and the same type, and then
  the stores are unchanged. Otherwise (also when the name is taken under the other role) it
  succeeds and appends one user, whose id and token are the strings just drawn by
  \<^verbatim>\<open>genId()\<close> and \<^verbatim>\<open>genToken()\<close>.
\<close>

theorem register_duplicate:
  assumes "n \<noteq> []" and "role = ''farmer'' \<or> role = ''buyer''"
  shows "let r = register s (JStr n) (JStr role) gid gtoken;
             taken = (\<exists>u\<in>set (users s). u_name u = JStr n \<and> u_type u = JStr role);
             newUser = \<lparr>u_id = gid, u_name = JStr n, u_type = JStr role, u_token = gtoken\<rparr>
         in (fails_with r = Some DuplicateActor \<longleftrightarrow> taken) \<and>
            (taken \<longrightarrow> snd r = s) \<and>
            (\<not> taken \<longrightarrow> r = (Inr newUser, s\<lparr>users := users s @ [newUser]\<rparr>))"
proof -
  have valid: "\<not> invalid_name_type (JStr n) (JStr role)"
    using assms by (auto simp: invalid_name_type_def)
  have found: "find (same_name_type (JStr n) (JStr role)) (users s) \<noteq> None \<longleftrightarrow>
      (\<exists>u\<in>set (users s). u_name u = JStr n \<and> u_type u = JStr role)"
    by (auto simp: find_None_iff same_name_type_def)
  show ?thesis
  proof (cases "\<exists>u\<in>set (users s). u_name u = JStr n \<and> u_type u = JStr role")
    case True
    with found have "register s (JStr n) (JStr role) gid gtoken = (Inl UserAlreadyExists, s)"
      by (simp add: register_def valid del: not_None_eq)
    with True show ?thesis by (simp add: Let_def)
  next
    case False
    with found have "register s (JStr n) (JStr role) gid gtoken =
       (Inr \<lparr>u_id = gid, u_name = JStr n, u_type = JStr role, u_token = gtoken\<rparr>,
        s\<lparr>users := users s @ [\<lparr>u_id = gid, u_name = JStr n, u_type = JStr role, u_token = gtoken\<rparr>]\<rparr>)"
      by (simp add: register_def valid Let_def del: not_None_eq)
    with False show ?thesis by (auto simp: Let_def)
  qed
qed

text \<open>Alice is registered as a farmer. Registering (Alice, farmer) again fails; registering
  (Alice, buyer) succeeds.\<close>

theorem register_duplicate_witness:
  "fails_with (register market (JStr ''Alice'') (JStr ''farmer'') ''a2'' ''tg'') = Some DuplicateActor \<and>
   snd (register market (JStr ''Alice'') (JStr ''farmer'') ''a2'' ''tg'') = market \<and>
   register market (JStr ''Alice'') (JStr ''buyer'') ''a2'' ''tg'' =
     (Inr \<lparr>u_id = ''a2'', u_name = JStr ''Alice'', u_type = JStr ''buyer'', u_token = ''tg''\<rparr>,
      market\<lparr>users := [alice, bob,
         \<lparr>u_id = ''a2'', u_name = JStr ''Alice'', u_type = JStr ''buyer'', u_token = ''tg''\<rparr>]\<rparr>)"
proof -
  have taken: "\<exists>u\<in>set (users market). u_name u = JStr ''Alice'' \<and> u_type u = JStr ''farmer''"
    and free: "\<not> (\<exists>u\<in>set (users market). u_name u = JStr ''Alice'' \<and> u_type u = JStr ''buyer'')"
    and us: "users market = [alice, bob]"
    by (simp_all add: market_def alice_def bob_def)
  from register_duplicate[of "''Alice''" "''farmer''" market "''a2''" "''tg''"] taken
  have again: "fails_with (register market (JStr ''Alice'') (JStr ''farmer'') ''a2'' ''tg'') = Some DuplicateActor \<and>
      snd (register market (JStr ''Alice'') (JStr ''farmer'') ''a2'' ''tg'') = market"
    by (simp add: Let_def)
  from register_duplicate[of "''Alice''" "''buyer''" market "''a2''" "''tg''"] free
  have other: "register market (JStr ''Alice'') (JStr ''buyer'') ''a2'' ''tg'' =
     (Inr \<lparr>u_id = ''a2'', u_name = JStr ''Alice'', u_type = JStr ''buyer'', u_token = ''tg''\<rparr>,
      market\<lparr>users := users market @
         [\<lparr>u_id = ''a2'', u_name = JStr ''Alice'', u_type = JStr ''buyer'', u_token = ''tg''\<rparr>]\<rparr>)"
    by (simp add: Let_def)
  from again other show ?thesis
    by (simp add: us)
qed

section \<open>Listing creation\<close>

text \<open>
  C6. A call of \<^verbatim>\<open>POST /products\<close> by an authenticated caller whose type is not
  \<^verbatim>\<open>farmer\<close> fails with Forbidden and adds nothing to the catalog. A call by a farmer fails
  with InvalidInput, again adding nothing, unless the name is truthy (for a string:
  non-empty) and price and quantity are numbers greater than 0; in that case it succeeds and
  appends one listing with the caller's id as \<^verbatim>\<open>farmerId\<close>.
\<close>

theorem createListing_validation:
  assumes "authMiddleware s authHeader = Inr caller"
  shows "let r = addProduct s authHeader name desc price quantity gid;
             farmer = (u_type caller = JStr ''farmer'');
             valid = (truthy name \<and> (\<exists>p. as_number price = Some p \<and> js_lt (Fin 0) p) \<and>
                        (\<exists>q. as_number quantity = Some q \<and> js_lt (Fin 0) q))
         in (\<not> farmer \<longrightarrow> fails_with r = Some Forbidden \<and> products (snd r) = products s) \<and>
            (farmer \<and> \<not> valid \<longrightarrow> fails_with r = Some InvalidInput \<and> products (snd r) = products s) \<and>
            (farmer \<and> valid \<longrightarrow>
               (\<exists>newProd. fst r = Inr newProd \<and> p_farmerId newProd = u_id caller \<and> p_id newProd = gid \<and>
                   p_name newProd = name \<and> as_number price = Some (p_price newProd) \<and>
                   as_number quantity = Some (p_quantity newProd) \<and>
                   snd r = s\<lparr>products := products s @ [newProd]\<rparr>))"
  using assms
  by (auto simp: addProduct_def addProductHandler_def Let_def as_number_positive split: option.splits)

text \<open>In the sample market: Bob, a buyer, offers potatoes; Alice offers them with an empty
  name, and at price 0; then Alice offers them properly.\<close>

theorem createListing_validation_witness:
  "fails_with (addProduct market (bearer ''tb'') (JStr ''Potato'') JUndefined (JNum 1) (JNum 5) ''p2'') = Some Forbidden \<and>
   fails_with (addProduct market (bearer ''ta'') (JStr []) JUndefined (JNum 1) (JNum 5) ''p2'') = Some InvalidInput \<and>
   fails_with (addProduct market (bearer ''ta'') (JStr ''Potato'') JUndefined (JNum 0) (JNum 5) ''p2'') = Some InvalidInput \<and>
   (\<exists>newProd. fst (addProduct market (bearer ''ta'') (JStr ''Potato'') JUndefined (JNum 1) (JNum 5) ''p2'') = Inr newProd \<and>
      p_farmerId newProd = ''a1'' \<and>
      products (snd (addProduct market (bearer ''ta'') (JStr ''Potato'') JUndefined (JNum 1) (JNum 5) ''p2'')) =
        [tomato, newProd])"
proof -
  have a: "u_type alice = JStr ''farmer''" "u_id alice = ''a1''"
    and b: "u_type bob \<noteq> JStr ''farmer''"
    and m: "products market = [tomato]"
    by (simp_all add: alice_def bob_def market_def)
  from createListing_validation[OF auth_bob, of "JStr ''Potato''" JUndefined "JNum 1" "JNum 5" "''p2''"]
       createListing_validation[OF auth_alice, of "JStr []" JUndefined "JNum 1" "JNum 5" "''p2''"]
       createListing_validation[OF auth_alice, of "JStr ''Potato''" JUndefined "JNum 0" "JNum 5" "''p2''"]
       createListing_validation[OF auth_alice, of "JStr ''Potato''" JUndefined "JNum 1" "JNum 5" "''p2''"]
       a b m
  show ?thesis
    by (auto simp: Let_def)
qed

section \<open>The ledger only grows\<close>

text \<open>
  C9. A request other than \<^verbatim>\<open>POST /orders\<close> leaves the ledger unchanged (the reads leave
  all three stores unchanged). A \<^verbatim>\<open>POST /orders\<close> that fails leaves the stores unchanged;
  one that succeeds changes nothing but the ledger, which is the old ledger followed by the
  one record returned. Hence after any sequence of requests the old ledger is an unchanged
  prefix of the new one: no record is ever altered or removed.
\<close>

theorem ledger_append_only:
  "(case r of
      PostOrders authHeader productId qty \<Rightarrow>
        (case fst (handle e s r) of
           Inl err \<Rightarrow> snd (handle e s r) = s
         | Inr x \<Rightarrow> (\<exists>ord. x = OrderJson ord \<and> snd (handle e s r) = s\<lparr>orders := orders s @ [ord]\<rparr>))
    | PostRegister n t \<Rightarrow> orders (snd (handle e s r)) = orders s
    | PostLogin n t \<Rightarrow> orders (snd (handle e s r)) = orders s
    | PostProducts authHeader n d p q \<Rightarrow> orders (snd (handle e s r)) = orders s
    | GetProducts \<Rightarrow> snd (handle e s r) = s
    | GetProductById k \<Rightarrow> snd (handle e s r) = s
    | GetOrders authHeader \<Rightarrow> snd (handle e s r) = s
    | GetMarketTrends \<Rightarrow> snd (handle e s r) = s
    | GetRoot \<Rightarrow> snd (handle e s r) = s) \<and>
   (\<exists>appended. orders (snd (run s reqs)) = orders s @ appended)"
proof
  show "\<exists>appended. orders (snd (run s reqs)) = orders s @ appended"
    by (rule run_orders_extend)
  show "case r of
      PostOrders authHeader productId qty \<Rightarrow>
        (case fst (handle e s r) of
           Inl err \<Rightarrow> snd (handle e s r) = s
         | Inr x \<Rightarrow> (\<exists>ord. x = OrderJson ord \<and> snd (handle e s r) = s\<lparr>orders := orders s @ [ord]\<rparr>))
    | PostRegister n t \<Rightarrow> orders (snd (handle e s r)) = orders s
    | PostLogin n t \<Rightarrow> orders (snd (handle e s r)) = orders s
    | PostProducts authHeader n d p q \<Rightarrow> orders (snd (handle e s r)) = orders s
    | GetProducts \<Rightarrow> snd (handle e s r) = s
    | GetProductById k \<Rightarrow> snd (handle e s r) = s
    | GetOrders authHeader \<Rightarrow> snd (handle e s r) = s
    | GetMarketTrends \<Rightarrow> snd (handle e s r) = s
    | GetRoot \<Rightarrow> snd (handle e s r) = s"
  proof (cases r)
    case (PostOrders a p q)
    from placeOrder_result[of s a p q "e_id e" "e_now e"] show ?thesis
      by (auto simp: PostOrders)
  qed (simp_all add: register_orders login_orders addProduct_orders case_prod_beta)
qed

section \<open>Session tokens\<close>

subsection \<open>Login replaces the token\<close>

lemma authMiddleware_bearer:
  "authMiddleware s (bearer t) =
     (case find (\<lambda>u. u_token u = t) (users s) of None \<Rightarrow> Inl InvalidToken | Some u \<Rightarrow> Inr u)"
  by (simp add: authMiddleware_def bearer_def)

lemma find_filter_Nil: "filter Q xs = [] \<Longrightarrow> find Q xs = None"
  by (induction xs) (auto split: if_splits)

lemma find_filter_single: "filter Q xs = [a] \<Longrightarrow> find Q xs = Some a"
  by (induction xs) (auto split: if_splits)

lemma find_Some_set: "find P xs = Some a \<Longrightarrow> a \<in> set xs \<and> P a"
  by (induction xs) (auto split: if_splits)

lemma update_first_find:
  "find P xs = Some a \<Longrightarrow> P (f a) \<Longrightarrow> find P (update_first P f xs) = Some (f a)"
  by (induction xs) (auto split: if_splits)

text \<open>When exactly one element satisfies \<open>Q\<close>, it is the one that is replaced, and its
  replacement does not satisfy \<open>Q\<close>, then no element satisfies \<open>Q\<close> afterwards.\<close>

lemma update_first_filter_Nil:
  "find P xs = Some a \<Longrightarrow> Q a \<Longrightarrow> \<not> Q (f a) \<Longrightarrow> length (filter Q xs) = 1 \<Longrightarrow>
     filter Q (update_first P f xs) = []"
proof (induction xs)
  case Nil
  then show ?case by simp
next
  case (Cons x xs)
  show ?case
  proof (cases "P x")
    case True
    with Cons.prems show ?thesis by (auto split: if_splits)
  next
    case False
    with Cons.prems have a: "find P xs = Some a" by simp
    then have "a \<in> set xs" by (simp add: find_Some_set)
    with \<open>Q a\<close> have "filter Q xs \<noteq> []" by (auto simp: filter_empty_conv)
    with Cons.prems(4) have "\<not> Q x" by (auto split: if_splits)
    with Cons.prems Cons.IH a False show ?thesis by simp
  qed
qed

text \<open>When no element satisfies \<open>Q\<close> and the replacement does, it is the only one afterwards.\<close>

lemma update_first_filter_single:
  "find P xs = Some a \<Longrightarrow> Q (f a) \<Longrightarrow> filter Q xs = [] \<Longrightarrow> filter Q (update_first P f xs) = [f a]"
  by (induction xs) (auto split: if_splits)

lemma login_success:
  assumes "find (same_name_type name type) (users s) = Some actor"
    and "fails_with (login s name type gtoken) = None"
  shows "login s name type gtoken =
     (Inr (actor\<lparr>u_token := gtoken\<rparr>),
      s\<lparr>users := update_first (same_name_type name type) (\<lambda>u. u\<lparr>u_token := gtoken\<rparr>) (users s)\<rparr>)"
  using assms by (simp add: login_def split: if_splits)

text \<open>
  C5. Let \<^verbatim>\<open>POST /login\<close> succeed for the actor that \<open>(name, type)\<close> resolves to, let
  no other stored user hold the actor's previous token, and let the token that
  \<^verbatim>\<open>genToken()\<close> draws differ from the previous one. Then the actor's token is the new one,
  and the previous token no longer resolves: every protected operation
  (\<^verbatim>\<open>POST /products\<close>, \<^verbatim>\<open>POST /orders\<close>, \<^verbatim>\<open>GET /orders\<close>) presented with it fails with
  Unauthenticated.
\<close>

theorem login_rotates_token:
  assumes "find (same_name_type name type) (users s) = Some actor"
    and "fails_with (login s name type gtoken) = None"
    and "length (filter (\<lambda>u. u_token u = u_token actor) (users s)) = 1"
    and "gtoken \<noteq> u_token actor"
  shows "let s' = snd (login s name type gtoken); previous = bearer (u_token actor) in
     fst (login s name type gtoken) = Inr (actor\<lparr>u_token := gtoken\<rparr>) \<and>
     find (same_name_type name type) (users s') = Some (actor\<lparr>u_token := gtoken\<rparr>) \<and>
     authMiddleware s' previous = Inl InvalidToken \<and>
     fails_with (addProduct s' previous pname desc price quantity gid) = Some Unauthenticated \<and>
     fails_with (placeOrder s' previous productId qty gid now) = Some Unauthenticated \<and>
     fails_with (getOrders s' previous, s') = Some Unauthenticated"
proof -
  define s' where "s' = snd (login s name type gtoken)"
  have s': "users s' = update_first (same_name_type name type) (\<lambda>u. u\<lparr>u_token := gtoken\<rparr>) (users s)"
    and r: "fst (login s name type gtoken) = Inr (actor\<lparr>u_token := gtoken\<rparr>)"
    using login_success[OF assms(1,2)] by (simp_all add: s'_def)
  have same: "same_name_type name type (actor\<lparr>u_token := gtoken\<rparr>)"
    using find_Some_set[OF assms(1)] by (simp add: same_name_type_def)
  have actor': "find (same_name_type name type) (users s') = Some (actor\<lparr>u_token := gtoken\<rparr>)"
    unfolding s' using assms(1) same by (rule update_first_find)
  have "filter (\<lambda>u. u_token u = u_token actor) (users s') = []"
    unfolding s' using assms(1) _ _ assms(3)
    by (rule update_first_filter_Nil) (simp_all add: assms(4))
  then have auth: "authMiddleware s' (bearer (u_token actor)) = Inl InvalidToken"
    by (simp add: authMiddleware_bearer find_filter_Nil)
  show ?thesis
    unfolding Let_def s'_def[symmetric]
    by (simp add: r actor' auth addProduct_def placeOrder_def getOrders_def)
qed

text \<open>In the sample market Bob logs in again and draws the token \<open>tn\<close>; his token \<open>tb\<close>
  is then refused.\<close>

theorem login_rotates_token_witness:
  "fst (login market (JStr ''Bob'') (JStr ''buyer'') ''tn'') = Inr (bob\<lparr>u_token := ''tn''\<rparr>) \<and>
   authMiddleware (snd (login market (JStr ''Bob'') (JStr ''buyer'') ''tn'')) (bearer ''tb'') = Inl InvalidToken \<and>
   fails_with (placeOrder (snd (login market (JStr ''Bob'') (JStr ''buyer'') ''tn'')) (bearer ''tb'')
                 (JStr ''p1'') (JNum 1) ''o1'' ''t1'') = Some Unauthenticated"
proof -
  have 1: "find (same_name_type (JStr ''Bob'') (JStr ''buyer'')) (users market) = Some bob"
    and 2: "fails_with (login market (JStr ''Bob'') (JStr ''buyer'') ''tn'') = None"
    and 3: "length (filter (\<lambda>u. u_token u = u_token bob) (users market)) = 1"
    and 4: "''tn'' \<noteq> u_token bob"
    by (simp_all add: login_def invalid_name_type_def same_name_type_def market_def alice_def bob_def)
  have t: "u_token bob = ''tb''"
    by (simp add: bob_def)
  from login_rotates_token[OF 1 2 3 4, of "JStr ''Potato''" JUndefined "JNum 1" "JNum 1" "''o1''"
         "JStr ''p1''" "JNum 1" "''t1''"]
  show ?thesis
    by (simp add: Let_def t)
qed

subsection \<open>A token resolves to its holder\<close>

lemma fails_with_addProductHandler:
  "fails_with (addProductHandler s u n d p q gid) \<noteq> Some Unauthenticated"
  by (simp add: addProductHandler_def Let_def split: option.splits)

lemma fails_with_placeOrderHandler:
  "fails_with (placeOrderHandler s u k q gid now) \<noteq> Some Unauthenticated"
  by (simp add: placeOrderHandler_def Let_def split: option.splits)

lemma fails_with_getOrdersHandler:
  "fails_with (getOrdersHandler s u, s) \<noteq> Some Unauthenticated"
  by (simp add: getOrdersHandler_def Let_def)

lemma addProductHandler_owner:
  "fst (addProductHandler s u n d p q gid) = Inr newProd \<Longrightarrow> p_farmerId newProd = u_id u"
  by (auto simp: addProductHandler_def Let_def split: option.splits if_splits)

lemma placeOrderHandler_buyer:
  "fst (placeOrderHandler s u k q gid now) = Inr ord \<Longrightarrow> o_buyerId ord = u_id u"
  by (auto simp: placeOrderHandler_def Let_def split: option.splits if_splits)

lemma register_fresh_token:
  assumes "register s name type gid gtoken = (Inr u, s')"
    and "gtoken \<notin> set (map u_token (users s))"
  shows "filter (\<lambda>x. u_token x = u_token u) (users s') = [u]"
proof -
  from assms(1) have u: "u = \<lparr>u_id = gid, u_name = name, u_type = type, u_token = gtoken\<rparr>"
    and s': "users s' = users s @ [u]"
    by (auto simp: register_def Let_def split: if_splits)
  from assms(2) have "filter (\<lambda>x. u_token x = gtoken) (users s) = []"
    by (auto simp: filter_empty_conv)
  then show ?thesis
    by (simp add: s') (simp add: u)
qed

lemma login_fresh_token:
  assumes "login s name type gtoken = (Inr u, s')"
    and "gtoken \<notin> set (map u_token (users s))"
  shows "filter (\<lambda>x. u_token x = u_token u) (users s') = [u]"
proof -
  from assms(1) obtain actor where a: "find (same_name_type name type) (users s) = Some actor"
    and u: "u = actor\<lparr>u_token := gtoken\<rparr>"
    and s': "users s' = update_first (same_name_type name type) (\<lambda>u. u\<lparr>u_token := gtoken\<rparr>) (users s)"
    by (auto simp: login_def split: if_splits option.splits)
  from assms(2) have none: "filter (\<lambda>x. u_token x = gtoken) (users s) = []"
    by (auto simp: filter_empty_conv)
  have "filter (\<lambda>x. u_token x = gtoken)
          (update_first (same_name_type name type) (\<lambda>u. u\<lparr>u_token := gtoken\<rparr>) (users s)) =
        [actor\<lparr>u_token := gtoken\<rparr>]"
    by (rule update_first_filter_single[OF a _ none]) simp
  then show ?thesis
    by (simp add: s' u)
qed

text \<open>
  C10. In a state where exactly one stored user holds the token \<open>t\<close>, the middleware
  resolves \<^verbatim>\<open>Bearer t\<close> to that user, and each protected route runs its handler with that
  user as \<^verbatim>\<open>req.user\<close>: it does not fail with Unauthenticated, a listing it creates is owned
  by that user, and an order it places is bought by that user. The token returned by a
  successful \<^verbatim>\<open>POST /register\<close> or \<^verbatim>\<open>POST /login\<close> is held by exactly the returned user,
  provided the string that \<^verbatim>\<open>genToken()\<close> drew is not a token already stored.
\<close>

theorem token_resolves_to_its_holder:
  "(filter (\<lambda>u. u_token u = t) (users s) = [actor] \<longrightarrow>
      authMiddleware s (bearer t) = Inr actor \<and>
      addProduct s (bearer t) pname desc price quantity gid =
        addProductHandler s actor pname desc price quantity gid \<and>
      placeOrder s (bearer t) productId qty gid now = placeOrderHandler s actor productId qty gid now \<and>
      getOrders s (bearer t) = getOrdersHandler s actor \<and>
      fails_with (addProduct s (bearer t) pname desc price quantity gid) \<noteq> Some Unauthenticated \<and>
      fails_with (placeOrder s (bearer t) productId qty gid now) \<noteq> Some Unauthenticated \<and>
      fails_with (getOrders s (bearer t), s) \<noteq> Some Unauthenticated \<and>
      (\<forall>newProd. fst (addProduct s (bearer t) pname desc price quantity gid) = Inr newProd \<longrightarrow>
          p_farmerId newProd = u_id actor) \<and>
      (\<forall>ord. fst (placeOrder s (bearer t) productId qty gid now) = Inr ord \<longrightarrow>
          o_buyerId ord = u_id actor)) \<and>
   (\<forall>u s'. register s name type gid gtoken = (Inr u, s') \<and> gtoken \<notin> set (map u_token (users s)) \<longrightarrow>
      filter (\<lambda>x. u_token x = u_token u) (users s') = [u]) \<and>
   (\<forall>u s'. login s name type gtoken = (Inr u, s') \<and> gtoken \<notin> set (map u_token (users s)) \<longrightarrow>
      filter (\<lambda>x. u_token x = u_token u) (users s') = [u])"
proof (intro conjI allI impI)
  assume only: "filter (\<lambda>u. u_token u = t) (users s) = [actor]"
  then show auth: "authMiddleware s (bearer t) = Inr actor"
    by (simp add: authMiddleware_bearer find_filter_single)
  then show ap: "addProduct s (bearer t) pname desc price quantity gid =
      addProductHandler s actor pname desc price quantity gid"
    and po: "placeOrder s (bearer t) productId qty gid now =
      placeOrderHandler s actor productId qty gid now"
    and go: "getOrders s (bearer t) = getOrdersHandler s actor"
    by (simp_all add: addProduct_def placeOrder_def getOrders_def)
  show "fails_with (addProduct s (bearer t) pname desc price quantity gid) \<noteq> Some Unauthenticated"
    unfolding ap by (rule fails_with_addProductHandler)
  show "fails_with (placeOrder s (bearer t) productId qty gid now) \<noteq> Some Unauthenticated"
    unfolding po by (rule fails_with_placeOrderHandler)
  show "fails_with (getOrders s (bearer t), s) \<noteq> Some Unauthenticated"
    unfolding go by (rule fails_with_getOrdersHandler)
  show "p_farmerId newProd = u_id actor"
    if "fst (addProduct s (bearer t) pname desc price quantity gid) = Inr newProd" for newProd
    using that unfolding ap by (rule addProductHandler_owner)
  show "o_buyerId ord = u_id actor"
    if "fst (placeOrder s (bearer t) productId qty gid now) = Inr ord" for ord
    using that unfolding po by (rule placeOrderHandler_buyer)
next
  fix u s'
  assume "register s name type gid gtoken = (Inr u, s') \<and> gtoken \<notin> set (map u_token (users s))"
  then show "filter (\<lambda>x. u_token x = u_token u) (users s') = [u]"
    using register_fresh_token by blast
next
  fix u s'
  assume "login s name type gtoken = (Inr u, s') \<and> gtoken \<notin> set (map u_token (users s))"
  then show "filter (\<lambda>x. u_token x = u_token u) (users s') = [u]"
    using login_fresh_token by blast
qed

text \<open>In the sample market Bob alone holds \<open>tb\<close>; Carol registers and draws \<open>tn\<close>; or Bob
  logs in again and draws \<open>tn\<close>.\<close>

theorem token_resolves_to_its_holder_witness:
  "authMiddleware market (bearer ''tb'') = Inr bob \<and>
   fails_with (placeOrder market (bearer ''tb'') (JStr ''p1'') (JNum 1) ''o1'' ''t1'') \<noteq> Some Unauthenticated \<and>
   filter (\<lambda>x. u_token x = ''tn'') (users (snd (register market (JStr ''Carol'') (JStr ''buyer'') ''c1'' ''tn''))) =
     [\<lparr>u_id = ''c1'', u_name = JStr ''Carol'', u_type = JStr ''buyer'', u_token = ''tn''\<rparr>] \<and>
   filter (\<lambda>x. u_token x = ''tn'') (users (snd (login market (JStr ''Bob'') (JStr ''buyer'') ''tn''))) =
     [bob\<lparr>u_token := ''tn''\<rparr>]"
proof -
  have only: "filter (\<lambda>u. u_token u = ''tb'') (users market) = [bob]"
    and new: "''tn'' \<notin> set (map u_token (users market))"
    by (simp_all add: market_def alice_def bob_def)
  define s1 where "s1 = snd (register market (JStr ''Carol'') (JStr ''buyer'') ''c1'' ''tn'')"
  define s2 where "s2 = snd (login market (JStr ''Bob'') (JStr ''buyer'') ''tn'')"
  have reg: "register market (JStr ''Carol'') (JStr ''buyer'') ''c1'' ''tn'' =
      (Inr \<lparr>u_id = ''c1'', u_name = JStr ''Carol'', u_type = JStr ''buyer'', u_token = ''tn''\<rparr>, s1)"
    unfolding s1_def
    by (simp add: register_def invalid_name_type_def same_name_type_def market_def alice_def bob_def Let_def)
  have log: "login market (JStr ''Bob'') (JStr ''buyer'') ''tn'' = (Inr (bob\<lparr>u_token := ''tn''\<rparr>), s2)"
    unfolding s2_def
    by (simp add: login_def invalid_name_type_def same_name_type_def market_def alice_def bob_def)
  note inst1 = token_resolves_to_its_holder[where t = "''tb''" and s = market and actor = bob
      and productId = "JStr ''p1''" and qty = "JNum 1" and gid = "''c1''" and now = "''t1''"
      and name = "JStr ''Carol''" and type = "JStr ''buyer''" and gtoken = "''tn''"]
  note inst2 = token_resolves_to_its_holder[where s = market and gid = "''o1''" and t = "''tb''"
      and actor = bob and productId = "JStr ''p1''" and qty = "JNum 1" and now = "''t1''"
      and name = "JStr ''Bob''" and type = "JStr ''buyer''" and gtoken = "''tn''"]
  from inst1 only have 1: "authMiddleware market (bearer ''tb'') = Inr bob"
    by blast
  from inst2 only have 2:
    "fails_with (placeOrder market (bearer ''tb'') (JStr ''p1'') (JNum 1) ''o1'' ''t1'') \<noteq> Some Unauthenticated"
    by blast
  from inst1 reg new have 3: "filter (\<lambda>x. u_token x = ''tn'') (users s1) =
     [\<lparr>u_id = ''c1'', u_name = JStr ''Carol'', u_type = JStr ''buyer'', u_token = ''tn''\<rparr>]"
    by fastforce
  from inst2 log new have 4: "filter (\<lambda>x. u_token x = ''tn'') (users s2) = [bob\<lparr>u_token := ''tn''\<rparr>]"
    by fastforce
  from 1 2 3 4 show ?thesis
    by (simp add: reg log)
qed

section \<open>No oversell\<close>

subsection \<open>What each handler does to the stores\<close>

lemma register_effect:
  "products (snd (register s n t gid gtoken)) = products s \<and>
   orders (snd (register s n t gid gtoken)) = orders s \<and>
   (users (snd (register s n t gid gtoken)) = users s \<or>
    (\<exists>u. u_id u = gid \<and> users (snd (register s n t gid gtoken)) = users s @ [u]))"
  by (simp add: register_def Let_def)

lemma login_effect:
  "products (snd (login s n t gtoken)) = products s \<and>
   orders (snd (login s n t gtoken)) = orders s \<and>
   (users (snd (login s n t gtoken)) = users s \<or>
    users (snd (login s n t gtoken)) =
      update_first (same_name_type n t) (\<lambda>u. u\<lparr>u_token := gtoken\<rparr>) (users s))"
  by (simp add: login_def split: option.splits)

lemma addProductHandler_effect:
  "users (snd (addProductHandler s u n d p q gid)) = users s \<and>
   orders (snd (addProductHandler s u n d p q gid)) = orders s \<and>
   (products (snd (addProductHandler s u n d p q gid)) = products s \<or>
    (\<exists>newProd. p_id newProd = gid \<and> p_farmerId newProd = u_id u \<and>
       as_number q = Some (p_quantity newProd) \<and> \<not> js_le (p_quantity newProd) (Fin 0) \<and>
       products (snd (addProductHandler s u n d p q gid)) = products s @ [newProd]))"
  by (simp add: addProductHandler_def Let_def split: option.splits)

lemma authMiddleware_stored: "authMiddleware s a = Inr u \<Longrightarrow> u \<in> set (users s)"
  by (auto simp: authMiddleware_def Let_def dest: find_Some_set split: option.splits if_splits)

lemma addProduct_effect:
  "users (snd (addProduct s a n d p q gid)) = users s \<and>
   orders (snd (addProduct s a n d p q gid)) = orders s \<and>
   (products (snd (addProduct s a n d p q gid)) = products s \<or>
    (\<exists>newProd. \<exists>u\<in>set (users s). p_id newProd = gid \<and> p_farmerId newProd = u_id u \<and>
       as_number q = Some (p_quantity newProd) \<and> \<not> js_le (p_quantity newProd) (Fin 0) \<and>
       products (snd (addProduct s a n d p q gid)) = products s @ [newProd]))"
proof (cases "authMiddleware s a")
  case (Inl e)
  then show ?thesis by (simp add: addProduct_def)
next
  case (Inr u)
  from authMiddleware_stored[OF Inr] addProductHandler_effect[of s u n d p q gid]
  show ?thesis
    unfolding addProduct_def Inr sum.case by blast
qed

text \<open>An order that is accepted is for a listing of the catalog, and asks for no more than
  the availability computed for that listing.\<close>

lemma placeOrderHandler_effect:
  "users (snd (placeOrderHandler s u k q gid now)) = users s \<and>
   products (snd (placeOrderHandler s u k q gid now)) = products s \<and>
   (orders (snd (placeOrderHandler s u k q gid now)) = orders s \<or>
    (\<exists>ord. \<exists>p\<in>set (products s). o_productId ord = JStr (p_id p) \<and>
       as_number q = Some (o_qty ord) \<and> \<not> js_le (o_qty ord) (Fin 0) \<and>
       \<not> js_lt (available s p) (o_qty ord) \<and>
       orders (snd (placeOrderHandler s u k q gid now)) = orders s @ [ord]))"
proof (cases "\<exists>e. placeOrderHandler s u k q gid now = (Inl e, s)")
  case True
  then show ?thesis by auto
next
  case False
  then obtain r p where q: "as_number q = Some r" "\<not> js_le r (Fin 0)"
    and f: "find (\<lambda>p. strict_eq (JStr (p_id p)) k) (products s) = Some p"
    and le: "\<not> js_lt (js_sub (p_quantity p) (soldQty (orders s) k)) r"
    by (auto simp: placeOrderHandler_def Let_def split: option.splits if_splits)
  from find_Some_set[OF f] have p: "p \<in> set (products s)" and k: "k = JStr (p_id p)"
    by simp_all
  define ord where
    "ord = \<lparr>o_id = gid, o_productId = k, o_buyerId = u_id u, o_qty = r, o_date = now\<rparr>"
  have res: "snd (placeOrderHandler s u k q gid now) = s\<lparr>orders := orders s @ [ord]\<rparr>"
    using False q f le by (auto simp: placeOrderHandler_def Let_def ord_def split: option.splits if_splits)
  have fit: "\<not> js_lt (available s p) (o_qty ord)"
    using le by (simp add: k available_def ord_def)
  have ref: "o_productId ord = JStr (p_id p)" and num: "as_number q = Some (o_qty ord)"
    and pos: "\<not> js_le (o_qty ord) (Fin 0)"
    using q by (simp_all add: ord_def k)
  from p ref num pos fit
  have "\<exists>ord'. \<exists>p\<in>set (products s). o_productId ord' = JStr (p_id p) \<and>
       as_number q = Some (o_qty ord') \<and> \<not> js_le (o_qty ord') (Fin 0) \<and>
       \<not> js_lt (available s p) (o_qty ord') \<and> orders s @ [ord] = orders s @ [ord']"
    by blast
  then show ?thesis
    by (simp add: res)
qed

lemma placeOrder_effect:
  "users (snd (placeOrder s a k q gid now)) = users s \<and>
   products (snd (placeOrder s a k q gid now)) = products s \<and>
   (orders (snd (placeOrder s a k q gid now)) = orders s \<or>
    (\<exists>ord. \<exists>p\<in>set (products s). o_productId ord = JStr (p_id p) \<and>
       as_number q = Some (o_qty ord) \<and> \<not> js_le (o_qty ord) (Fin 0) \<and>
       \<not> js_lt (available s p) (o_qty ord) \<and>
       orders (snd (placeOrder s a k q gid now)) = orders s @ [ord]))"
proof (cases "authMiddleware s a")
  case (Inl e)
  then show ?thesis by (simp add: placeOrder_def)
next
  case (Inr u)
  from placeOrderHandler_effect[of s u k q gid now] show ?thesis
    unfolding placeOrder_def Inr sum.case .
qed

subsection \<open>Each kind of change keeps the stores consistent\<close>

lemma consistent_init: "consistent init"
  by (simp add: consistent_def init_def)

lemma consistent_same:
  assumes "consistent s" "users s' = users s" "products s' = products s" "orders s' = orders s"
  shows "consistent s'"
  using assms by (simp add: consistent_def)

lemma consistent_add_user:
  assumes "consistent s" "u_id u \<notin> set (map u_id (users s))"
    and "users s' = users s @ [u]" "products s' = products s" "orders s' = orders s"
  shows "consistent s'"
  using assms by (auto simp: consistent_def)

lemma map_u_id_update_first:
  "map u_id (update_first P (\<lambda>u. u\<lparr>u_token := t\<rparr>) us) = map u_id us"
  by (induction us) auto

lemma consistent_login:
  assumes "consistent s"
    and us: "users s' = update_first P (\<lambda>u. u\<lparr>u_token := t\<rparr>) (users s)"
    and "products s' = products s" "orders s' = orders s"
  shows "consistent s'"
proof -
  have ids: "map u_id (users s') = map u_id (users s)"
    unfolding us by (rule map_u_id_update_first)
  then have "set (map u_id (users s')) = set (map u_id (users s))"
    by simp
  then have "u_id ` set (users s') = u_id ` set (users s)"
    by simp
  then have owner: "(\<exists>u\<in>set (users s'). k = u_id u) \<longleftrightarrow> (\<exists>u\<in>set (users s). k = u_id u)" for k
    by (auto simp: image_iff)
  from assms(1) show ?thesis
    by (simp add: consistent_def ids owner assms(3,4))
qed

lemma consistent_add_product:
  assumes "consistent s" and "p_id p \<notin> set (map p_id (products s))"
    and "\<exists>u\<in>set (users s). p_farmerId p = u_id u"
    and "users s' = users s" "products s' = products s @ [p]" "orders s' = orders s"
  shows "consistent s'"
  using assms(1-3) by (auto simp: consistent_def assms(4,5,6))

lemma consistent_add_order:
  assumes "consistent s" and "p \<in> set (products s)" and "o_productId ord = JStr (p_id p)"
    and "users s' = users s" "products s' = products s" "orders s' = orders s @ [ord]"
  shows "consistent s'"
  using assms(1-3) by (auto simp: consistent_def assms(4,5,6))

lemma consistent_handle:
  assumes "consistent s" and "fresh e s"
  shows "consistent (snd (handle e s r))"
proof (cases r)
  case (PostRegister n t)
  define s' where "s' = snd (register s n t (e_id e) (e_token e))"
  have eq: "snd (handle e s r) = s'"
    by (simp add: PostRegister case_prod_beta s'_def)
  from assms(2) have new: "e_id e \<notin> set (map u_id (users s))"
    by (simp add: fresh_def)
  from register_effect[of s n t "e_id e" "e_token e"]
  have ps: "products s' = products s" and os: "orders s' = orders s"
    and us: "users s' = users s \<or> (\<exists>u. u_id u = e_id e \<and> users s' = users s @ [u])"
    by (simp_all add: s'_def)
  from us have "consistent s'"
  proof
    assume "users s' = users s"
    then show ?thesis using ps os by (rule consistent_same[OF assms(1)])
  next
    assume "\<exists>u. u_id u = e_id e \<and> users s' = users s @ [u]"
    then obtain u where u: "u_id u = e_id e" "users s' = users s @ [u]" by blast
    from new u(1) have "u_id u \<notin> set (map u_id (users s))" by simp
    then show ?thesis using u(2) ps os by (rule consistent_add_user[OF assms(1)])
  qed
  then show ?thesis by (simp add: eq)
next
  case (PostLogin n t)
  define s' where "s' = snd (login s n t (e_token e))"
  have eq: "snd (handle e s r) = s'"
    by (simp add: PostLogin case_prod_beta s'_def)
  from login_effect[of s n t "e_token e"]
  have ps: "products s' = products s" and os: "orders s' = orders s"
    and us: "users s' = users s \<or>
      users s' = update_first (same_name_type n t) (\<lambda>u. u\<lparr>u_token := e_token e\<rparr>) (users s)"
    by (simp_all add: s'_def)
  from us have "consistent s'"
  proof
    assume "users s' = users s"
    then show ?thesis using ps os by (rule consistent_same[OF assms(1)])
  next
    assume "users s' = update_first (same_name_type n t) (\<lambda>u. u\<lparr>u_token := e_token e\<rparr>) (users s)"
    then show ?thesis using ps os by (rule consistent_login[OF assms(1)])
  qed
  then show ?thesis by (simp add: eq)
next
  case (PostProducts a n d p q)
  define s' where "s' = snd (addProduct s a n d p q (e_id e))"
  have eq: "snd (handle e s r) = s'"
    by (simp add: PostProducts case_prod_beta s'_def)
  from assms(2) have new: "e_id e \<notin> set (map p_id (products s))"
    by (simp add: fresh_def)
  from addProduct_effect[of s a n d p q "e_id e"]
  have us: "users s' = users s" and os: "orders s' = orders s"
    and ps: "products s' = products s \<or>
      (\<exists>newProd. \<exists>u\<in>set (users s). p_id newProd = e_id e \<and> p_farmerId newProd = u_id u \<and>
         products s' = products s @ [newProd])"
    by (auto simp: s'_def)
  from ps have "consistent s'"
  proof
    assume "products s' = products s"
    with us show ?thesis using os by (rule consistent_same[OF assms(1)])
  next
    assume "\<exists>newProd. \<exists>u\<in>set (users s). p_id newProd = e_id e \<and> p_farmerId newProd = u_id u \<and>
         products s' = products s @ [newProd]"
    then obtain newProd u where u: "u \<in> set (users s)" and i: "p_id newProd = e_id e"
      and f: "p_farmerId newProd = u_id u"
      and ps': "products s' = products s @ [newProd]"
      by blast
    from new i have 1: "p_id newProd \<notin> set (map p_id (products s))" by simp
    from u f have 2: "\<exists>u\<in>set (users s). p_farmerId newProd = u_id u" by blast
    from 1 2 us ps' os show ?thesis by (rule consistent_add_product[OF assms(1)])
  qed
  then show ?thesis by (simp add: eq)
next
  case (PostOrders a k q)
  define s' where "s' = snd (placeOrder s a k q (e_id e) (e_now e))"
  have eq: "snd (handle e s r) = s'"
    by (simp add: PostOrders case_prod_beta s'_def)
  from placeOrder_effect[of s a k q "e_id e" "e_now e"]
  have us: "users s' = users s" and ps: "products s' = products s"
    and os: "orders s' = orders s \<or>
      (\<exists>ord. \<exists>p\<in>set (products s). o_productId ord = JStr (p_id p) \<and> orders s' = orders s @ [ord])"
    by (auto simp: s'_def)
  from os have "consistent s'"
  proof
    assume "orders s' = orders s"
    with us ps show ?thesis by (rule consistent_same[OF assms(1)])
  next
    assume "\<exists>ord. \<exists>p\<in>set (products s). o_productId ord = JStr (p_id p) \<and> orders s' = orders s @ [ord]"
    then obtain ord p where p: "p \<in> set (products s)" and r: "o_productId ord = JStr (p_id p)"
      and os': "orders s' = orders s @ [ord]"
      by blast
    from p r us ps os' show ?thesis by (rule consistent_add_order[OF assms(1)])
  qed
  then show ?thesis by (simp add: eq)
qed (simp_all add: assms)

lemma consistent_run: "consistent s \<Longrightarrow> fresh_run s reqs \<Longrightarrow> consistent (snd (run s reqs))"
proof (induction reqs arbitrary: s)
  case Nil
  then show ?case by simp
next
  case (Cons er rest)
  obtain e r where er: "er = (e, r)" by (cases er)
  from Cons.prems have "consistent (snd (handle e s r))" and "fresh_run (snd (handle e s r)) rest"
    by (simp_all add: er consistent_handle)
  then have "consistent (snd (run (snd (handle e s r)) rest))"
    by (rule Cons.IH)
  then show ?case
    by (simp add: er case_prod_beta)
qed

subsection \<open>Safe quantities keep the stores counted\<close>

lemma committedQty_cong: "orders s' = orders s \<Longrightarrow> committedQty s' k = committedQty s k"
  by (simp add: committedQty_def)

lemma committedQty_snoc_other:
  "orders s' = orders s @ [ord] \<Longrightarrow> o_productId ord \<noteq> JStr k \<Longrightarrow>
     committedQty s' k = committedQty s k"
  by (simp add: committedQty_def)

lemma committedQty_snoc_same:
  "orders s' = orders s @ [ord] \<Longrightarrow> o_productId ord = JStr k \<Longrightarrow> o_qty ord = Fin n \<Longrightarrow>
     committedQty s k = Some c \<Longrightarrow> committedQty s' k = Some (c + n)"
  by (simp add: committedQty_def exactSum_append)

lemma committedQty_unreferenced:
  assumes "\<forall>ord\<in>set (orders s). \<exists>p\<in>set (products s). o_productId ord = JStr (p_id p)"
    and "k \<notin> set (map p_id (products s))"
  shows "committedQty s k = Some 0"
proof -
  have "filter (\<lambda>ord. o_productId ord = JStr k) (orders s) = []"
    using assms by (fastforce simp: filter_empty_conv)
  then show ?thesis
    by (simp add: committedQty_def)
qed

text \<open>A safe quantity that passes the handler's test \<^verbatim>\<open>typeof q === 'number' && q > 0\<close> is
  stored as it was written: a positive integer of at most \<open>2 ^ 53\<close>.\<close>

lemma safeQuantity_counting:
  assumes "safeQuantity v" "as_number v = Some d" "\<not> js_le d (Fin 0)"
  shows "counting d \<and> js_le d (Fin 9007199254740992)"
proof -
  from assms(2) obtain r where v: "v = JNum r" and d: "d = toDouble r"
    by (auto simp: as_number_Some)
  from assms(1) v have r: "of_int \<lfloor>r\<rfloor> = r" "\<bar>r\<bar> \<le> 9007199254740992"
    by simp_all
  then have "d = Fin r"
    by (simp add: d toDouble_whole)
  with assms(3) r show ?thesis
    by simp
qed

lemma counted_init: "counted init"
  by (simp add: counted_def init_def)

lemma counted_same:
  assumes "counted s" "products s' = products s" "orders s' = orders s"
  shows "counted s'"
  using assms(1) by (simp add: counted_def assms(2,3) committedQty_cong[OF assms(3)])

lemma counted_add_product:
  assumes "counted s"
    and "\<forall>ord\<in>set (orders s). \<exists>p\<in>set (products s). o_productId ord = JStr (p_id p)"
    and "p_id p \<notin> set (map p_id (products s))"
    and "counting (p_quantity p)" "js_le (p_quantity p) (Fin 9007199254740992)"
    and "products s' = products s @ [p]" "orders s' = orders s"
  shows "counted s'"
proof -
  from assms(4) obtain Q where "p_quantity p = Fin Q" "0 \<le> Q"
    by (auto simp: counting_iff)
  with committedQty_unreferenced[OF assms(2,3)]
  have "\<exists>c. committedQty s (p_id p) = Some c \<and> js_le (Fin c) (p_quantity p)"
    by simp
  with assms(1,4,5) show ?thesis
    by (auto simp: counted_def assms(6,7) committedQty_cong[OF assms(7)])
qed

text \<open>In counted stores the handlers' availability is the exact one.\<close>

lemma available_exact:
  assumes "counted s" "p \<in> set (products s)"
  obtains Q c where "p_quantity p = Fin Q" "Q \<in> \<int>" "0 \<le> Q" "Q \<le> 9007199254740992"
    and "committedQty s (p_id p) = Some c" "c \<in> \<int>" "0 \<le> c" "c \<le> Q"
    and "available s p = Fin (Q - c)"
proof -
  from assms have "counting (p_quantity p)" and "js_le (p_quantity p) (Fin 9007199254740992)"
    by (simp_all add: counted_def)
  then obtain Q where Q: "p_quantity p = Fin Q" "Q \<in> \<int>" "0 \<le> Q" "Q \<le> 9007199254740992"
    by (auto simp: counting_iff)
  from assms Q(1) obtain c where c: "committedQty s (p_id p) = Some c" "c \<le> Q"
    by (auto simp: counted_def)
  from assms(1) have os: "\<forall>ord\<in>set (orders s). o_productId ord = JStr (p_id p) \<longrightarrow> counting (o_qty ord)"
    by (simp add: counted_def)
  from committedQty_counting[OF os] c(1) have cint: "c \<in> \<int>" and cpos: "0 \<le> c"
    by auto
  have sold: "soldQty (orders s) (JStr (p_id p)) = Fin c"
    using os c(1) by (rule soldQty_exact) (use c(2) Q(4) in simp)
  have "\<bar>Q - c\<bar> \<le> 9007199254740992"
    using Q(4) cpos c(2) by simp
  with Q(2) cint have "js_sub (Fin Q) (Fin c) = Fin (Q - c)"
    by (rule js_sub_whole)
  then have "available s p = Fin (Q - c)"
    by (simp add: available_def Q(1) sold)
  with Q c cint cpos show ?thesis
    by (intro that)
qed

lemma counted_add_order:
  assumes "counted s" and "distinct (map p_id (products s))"
    and "p \<in> set (products s)" and "o_productId ord = JStr (p_id p)"
    and "counting (o_qty ord)" and "\<not> js_lt (available s p) (o_qty ord)"
    and "products s' = products s" "orders s' = orders s @ [ord]"
  shows "counted s'"
proof -
  from available_exact[OF assms(1,3)] obtain Q c
    where Q: "p_quantity p = Fin Q"
      and c: "committedQty s (p_id p) = Some c"
      and av: "available s p = Fin (Q - c)"
    by metis
  from assms(5) obtain n where n: "o_qty ord = Fin n"
    by (auto simp: counting_iff)
  from assms(6) have fit: "c + n \<le> Q"
    by (simp add: av n)
  have "\<exists>c'. committedQty s' (p_id p') = Some c' \<and> js_le (Fin c') (p_quantity p')"
    if p': "p' \<in> set (products s)" for p'
  proof (cases "p_id p' = p_id p")
    case True
    with assms(2,3) p' have "p' = p"
      by (simp add: distinct_map inj_on_def)
    moreover have "committedQty s' (p_id p) = Some (c + n)"
      using assms(8,4) n c by (rule committedQty_snoc_same)
    ultimately show ?thesis
      using fit by (simp add: Q)
  next
    case False
    then have "o_productId ord \<noteq> JStr (p_id p')"
      by (simp add: assms(4))
    with assms(8) have "committedQty s' (p_id p') = committedQty s (p_id p')"
      by (rule committedQty_snoc_other)
    with assms(1) p' show ?thesis
      by (simp add: counted_def)
  qed
  with assms(1,5) show ?thesis
    by (auto simp: counted_def assms(7,8))
qed

lemma counted_handle:
  assumes "consistent s" and "counted s" and "fresh e s" and "safe_request r"
  shows "counted (snd (handle e s r))"
proof (cases r)
  case (PostRegister n t)
  from register_effect[of s n t "e_id e" "e_token e"] show ?thesis
    by (auto simp: PostRegister case_prod_beta intro: counted_same[OF assms(2)])
next
  case (PostLogin n t)
  from login_effect[of s n t "e_token e"] show ?thesis
    by (auto simp: PostLogin case_prod_beta intro: counted_same[OF assms(2)])
next
  case (PostProducts a n d p q)
  define s' where "s' = snd (addProduct s a n d p q (e_id e))"
  have eq: "snd (handle e s r) = s'"
    by (simp add: PostProducts case_prod_beta s'_def)
  from assms(4) have safe: "safeQuantity q"
    by (simp add: PostProducts)
  from assms(3) have new: "e_id e \<notin> set (map p_id (products s))"
    by (simp add: fresh_def)
  from assms(1) have refs: "\<forall>ord\<in>set (orders s). \<exists>p\<in>set (products s). o_productId ord = JStr (p_id p)"
    by (simp add: consistent_def)
  from addProduct_effect[of s a n d p q "e_id e"]
  have os: "orders s' = orders s"
    and ps: "products s' = products s \<or>
      (\<exists>newProd. p_id newProd = e_id e \<and> as_number q = Some (p_quantity newProd) \<and>
         \<not> js_le (p_quantity newProd) (Fin 0) \<and> products s' = products s @ [newProd])"
    by (auto simp: s'_def)
  from ps have "counted s'"
  proof
    assume "products s' = products s"
    then show ?thesis using os by (rule counted_same[OF assms(2)])
  next
    assume "\<exists>newProd. p_id newProd = e_id e \<and> as_number q = Some (p_quantity newProd) \<and>
         \<not> js_le (p_quantity newProd) (Fin 0) \<and> products s' = products s @ [newProd]"
    then obtain newProd where i: "p_id newProd = e_id e"
      and num: "as_number q = Some (p_quantity newProd)"
      and pos: "\<not> js_le (p_quantity newProd) (Fin 0)"
      and ps': "products s' = products s @ [newProd]"
      by blast
    from new i have 1: "p_id newProd \<notin> set (map p_id (products s))" by simp
    from safeQuantity_counting[OF safe num pos]
    have 2: "counting (p_quantity newProd)" and 3: "js_le (p_quantity newProd) (Fin 9007199254740992)"
      by simp_all
    from refs 1 2 3 ps' os show ?thesis by (rule counted_add_product[OF assms(2)])
  qed
  then show ?thesis by (simp add: eq)
next
  case (PostOrders a k q)
  define s' where "s' = snd (placeOrder s a k q (e_id e) (e_now e))"
  have eq: "snd (handle e s r) = s'"
    by (simp add: PostOrders case_prod_beta s'_def)
  from assms(4) have safe: "safeQuantity q"
    by (simp add: PostOrders)
  from assms(1) have ids: "distinct (map p_id (products s))"
    by (simp add: consistent_def)
  from placeOrder_effect[of s a k q "e_id e" "e_now e"]
  have ps: "products s' = products s"
    and os: "orders s' = orders s \<or>
      (\<exists>ord. \<exists>p\<in>set (products s). o_productId ord = JStr (p_id p) \<and>
         as_number q = Some (o_qty ord) \<and> \<not> js_le (o_qty ord) (Fin 0) \<and>
         \<not> js_lt (available s p) (o_qty ord) \<and> orders s' = orders s @ [ord])"
    by (simp_all add: s'_def)
  from os have "counted s'"
  proof
    assume "orders s' = orders s"
    with ps show ?thesis by (rule counted_same[OF assms(2)])
  next
    assume "\<exists>ord. \<exists>p\<in>set (products s). o_productId ord = JStr (p_id p) \<and>
         as_number q = Some (o_qty ord) \<and> \<not> js_le (o_qty ord) (Fin 0) \<and>
         \<not> js_lt (available s p) (o_qty ord) \<and> orders s' = orders s @ [ord]"
    then obtain ord p where p: "p \<in> set (products s)" and ref: "o_productId ord = JStr (p_id p)"
      and num: "as_number q = Some (o_qty ord)" and pos: "\<not> js_le (o_qty ord) (Fin 0)"
      and fit: "\<not> js_lt (available s p) (o_qty ord)"
      and os': "orders s' = orders s @ [ord]"
      by blast
    from safeQuantity_counting[OF safe num pos] have cnt: "counting (o_qty ord)"
      by simp
    from ids p ref cnt fit ps os' show ?thesis by (rule counted_add_order[OF assms(2)])
  qed
  then show ?thesis by (simp add: eq)
qed (simp_all add: assms)

lemma counted_run:
  "consistent s \<Longrightarrow> counted s \<Longrightarrow> fresh_run s reqs \<Longrightarrow> safe_run reqs \<Longrightarrow>
     counted (snd (run s reqs))"
proof (induction reqs arbitrary: s)
  case Nil
  then show ?case by simp
next
  case (Cons er rest)
  obtain e r where er: "er = (e, r)" by (cases er)
  from Cons.prems have f: "fresh e s" "fresh_run (snd (handle e s r)) rest"
    and sf: "safe_request r" "safe_run rest"
    by (simp_all add: er safe_run_def)
  from Cons.prems(1) f(1) have "consistent (snd (handle e s r))"
    by (rule consistent_handle)
  moreover from Cons.prems(1,2) f(1) sf(1) have "counted (snd (handle e s r))"
    by (rule counted_handle)
  ultimately have "counted (snd (run (snd (handle e s r)) rest))"
    using f(2) sf(2) by (rule Cons.IH)
  then show ?case
    by (simp add: er case_prod_beta)
qed

subsection \<open>The catalog only grows, and the ledger grows by what succeeds\<close>

lemma handle_products: "set (products s) \<subseteq> set (products (snd (handle e s r)))"
proof (cases r)
  case (PostRegister n t)
  with register_effect[of s n t "e_id e" "e_token e"] show ?thesis
    by (simp add: case_prod_beta)
next
  case (PostLogin n t)
  with login_effect[of s n t "e_token e"] show ?thesis
    by (simp add: case_prod_beta)
next
  case (PostProducts a n d p q)
  with addProduct_effect[of s a n d p q "e_id e"] show ?thesis
    by (auto simp: case_prod_beta)
next
  case (PostOrders a k q)
  with placeOrder_effect[of s a k q "e_id e" "e_now e"] show ?thesis
    by (simp add: case_prod_beta)
qed simp_all

lemma run_products: "set (products s) \<subseteq> set (products (snd (run s reqs)))"
proof (induction reqs arbitrary: s)
  case Nil
  show ?case by simp
next
  case (Cons er rest)
  obtain e r where er: "er = (e, r)" by (cases er)
  from handle_products[of s e r] Cons.IH[of "snd (handle e s r)"] show ?case
    by (auto simp: er case_prod_beta)
qed

lemma exactSum_snoc_zero: "exactSum (xs @ [Fin 0]) = exactSum xs"
  by (cases "exactSum xs") (simp_all add: exactSum_append)

lemma exactSum_append_cong: "exactSum xs = exactSum xs' \<Longrightarrow> exactSum (xs @ ys) = exactSum (xs' @ ys)"
  by (simp add: exactSum_append)

text \<open>The quantities that the ledger holds against listing \<open>k\<close>, in ledger order.\<close>

lemma handle_committedQty:
  "committedQty (snd (handle e s r)) k =
     exactSum (map o_qty (filter (\<lambda>ord. o_productId ord = JStr k) (orders s)) @
               [orderedQty k (fst (handle e s r))])"
proof (cases r)
  case (PostOrders a p q)
  from placeOrder_result[of s a p q "e_id e" "e_now e"] show ?thesis
    by (auto simp: PostOrders committedQty_def exactSum_snoc_zero)
next
  case (PostRegister n t)
  have "orderedQty k (map_sum id UserJson x) = Fin 0" for x
    by (cases x) simp_all
  then show ?thesis
    by (simp add: PostRegister case_prod_beta committedQty_def register_orders exactSum_snoc_zero)
next
  case (PostLogin n t)
  have "orderedQty k (map_sum id UserJson x) = Fin 0" for x
    by (cases x) simp_all
  then show ?thesis
    by (simp add: PostLogin case_prod_beta committedQty_def login_orders exactSum_snoc_zero)
next
  case (PostProducts a n d p q)
  have "orderedQty k (map_sum id ProductJson x) = Fin 0" for x
    by (cases x) simp_all
  then show ?thesis
    by (simp add: PostProducts case_prod_beta committedQty_def addProduct_orders exactSum_snoc_zero)
next
  case (GetProductById i)
  have "orderedQty k (map_sum id ProductDetailJson x) = Fin 0" for x
    by (cases x) simp_all
  then show ?thesis
    by (simp add: GetProductById committedQty_def exactSum_snoc_zero)
next
  case (GetOrders a)
  have "orderedQty k (map_sum id OrdersJson x) = Fin 0" for x
    by (cases x) simp_all
  then show ?thesis
    by (simp add: GetOrders committedQty_def exactSum_snoc_zero)
qed (simp_all add: committedQty_def exactSum_snoc_zero)

lemma run_committedQty:
  "committedQty (snd (run s reqs)) k =
     exactSum (map o_qty (filter (\<lambda>ord. o_productId ord = JStr k) (orders s)) @
               map (orderedQty k) (fst (run s reqs)))"
proof (induction reqs arbitrary: s)
  case Nil
  show ?case by (simp add: committedQty_def)
next
  case (Cons er rest)
  obtain e r where er: "er = (e, r)" by (cases er)
  define s1 where "s1 = snd (handle e s r)"
  let ?qs = "\<lambda>s. map o_qty (filter (\<lambda>ord. o_productId ord = JStr k) (orders s))"
  have "exactSum (?qs s1) = exactSum (?qs s @ [orderedQty k (fst (handle e s r))])"
    using handle_committedQty[of e s r k] by (simp add: committedQty_def s1_def)
  then have "exactSum (?qs s1 @ map (orderedQty k) (fst (run s1 rest))) =
      exactSum ((?qs s @ [orderedQty k (fst (handle e s r))]) @ map (orderedQty k) (fst (run s1 rest)))"
    by (rule exactSum_append_cong)
  with Cons.IH[of s1] show ?case
    by (simp add: er case_prod_beta s1_def)
qed

lemma run_append: "snd (run s (xs @ ys)) = snd (run (snd (run s xs)) ys)"
  by (induction xs arbitrary: s) (auto simp: case_prod_beta)

lemma fresh_run_append: "fresh_run s (xs @ ys) \<longleftrightarrow> fresh_run s xs \<and> fresh_run (snd (run s xs)) ys"
  by (induction xs arbitrary: s) (auto simp: case_prod_beta)

text \<open>Two roundings around 1: \<open>1 / 2 ^ 60\<close> is a double, and \<open>1 - 1 / 2 ^ 60\<close> is nearer to 1
  than to the double below 1, which is \<open>1 - 1 / 2 ^ 53\<close>.\<close>

lemma toDouble_tiny: "toDouble (1 / 1152921504606846976) = Fin (1 / 1152921504606846976)"
  using toDouble_at[of "- 60" "1 / 2 ^ 60"] roundHalfEven_of_int[of 4503599627370496]
  by simp

lemma toDouble_below_one: "toDouble (1152921504606846975 / 1152921504606846976) = Fin 1"
  using toDouble_at[of "- 1" "1 - 1 / 2 ^ 60"]
    roundHalfEven_up[of 9007199254740992 "(1 - 1 / 2 ^ 60) * 2 ^ 53"]
  by simp

lemma run_saffron: "snd (run market saffron_requests) = saffron_market"
  by (simp add: saffron_requests_def saffron_market_def saffron_def sample_defs
      handler_defs soldQty_def js_sub_def Let_def toDouble_tiny toDouble_below_one)

lemma fresh_saffron: "fresh_run market saffron_requests"
  by (simp add: saffron_requests_def saffron_def sample_defs handler_defs fresh_def soldQty_def
      js_sub_def Let_def toDouble_tiny toDouble_below_one)

lemma fresh_rice: "fresh_run market rice_requests"
  by (simp add: rice_requests_def rice_def sample_defs handler_defs fresh_def soldQty_def
      js_sub_def Let_def toDouble_rice toDouble_above_2_53)

text \<open>
  C1, as the specification states it, fails on the code. From empty stores, with fresh ids
  and tokens all along: Alice and Bob register, Alice lists tomatoes and then
  9007199254740994 grains of rice, and Bob orders 9007199254740992 of the rice and then one
  grain three times. The sum that the handler computes for the orders so far stays at
  9007199254740992 and the availability at 2, so the fourth order is accepted as the others
  were, and the ledger holds 9007199254740995 against a listing of 9007199254740994.
  Quantities that are not integers oversell a small listing in the same way: of one unit of
  saffron Bob orders \<open>1 / 2 ^ 60\<close> and then the whole unit; the availability computed for the
  second order is \<open>1 - 1 / 2 ^ 60\<close> rounded, which is 1, and the ledger holds
  \<open>1 + 1 / 2 ^ 60\<close> against a listing of 1.
\<close>

theorem no_oversell_counterexample:
  "fresh_run init (setup_requests @ rice_requests @ rice_fourth) \<and>
   snd (run init (setup_requests @ rice_requests @ rice_fourth)) = oversold_market \<and>
   rice \<in> set (products oversold_market) \<and>
   p_id rice = ''p4'' \<and>
   p_quantity rice = Fin 9007199254740994 \<and>
   committedQty oversold_market ''p4'' = Some 9007199254740995 \<and>
   \<not> (9007199254740995 \<le> (9007199254740994::rat)) \<and>
   fresh_run init (setup_requests @ saffron_requests) \<and>
   snd (run init (setup_requests @ saffron_requests)) = saffron_market \<and>
   saffron \<in> set (products saffron_market) \<and>
   p_id saffron = ''p5'' \<and>
   p_quantity saffron = Fin 1 \<and>
   committedQty saffron_market ''p5'' = Some (1152921504606846977 / 1152921504606846976) \<and>
   \<not> (1152921504606846977 / 1152921504606846976 \<le> (1::rat))"
proof -
  have fourth: "snd (run rice_market rice_fourth) = oversold_market"
    by (simp add: rice_fourth_def oversold_market_def rice_market_def rice_orders_def rice_def
        alice_def bob_def tomato_def draws_def handler_defs soldQty_def js_sub_def Let_def
        toDouble_above_2_53)
  have "fresh_run rice_market rice_fourth"
    by (simp add: rice_fourth_def rice_market_def rice_orders_def rice_def
        alice_def bob_def tomato_def draws_def fresh_def)
  then have "fresh_run init (setup_requests @ rice_requests @ rice_fourth)"
    using fresh_setup fresh_rice by (simp add: fresh_run_append run_setup run_rice)
  moreover have "snd (run init (setup_requests @ rice_requests @ rice_fourth)) = oversold_market"
    using fourth by (simp add: run_append run_setup run_rice)
  moreover have "committedQty oversold_market ''p4'' = Some 9007199254740995"
    by (simp add: committedQty_def oversold_market_def rice_market_def rice_orders_def)
  moreover have "fresh_run init (setup_requests @ saffron_requests)"
    using fresh_setup fresh_saffron by (simp add: fresh_run_append run_setup)
  moreover have "snd (run init (setup_requests @ saffron_requests)) = saffron_market"
    by (simp add: run_append run_setup run_saffron)
  moreover have "committedQty saffron_market ''p5'' =
      Some (1152921504606846977 / 1152921504606846976)"
    by (simp add: committedQty_def saffron_market_def)
  ultimately show ?thesis
    by (simp add: oversold_market_def rice_market_def rice_def saffron_market_def saffron_def)
qed

text \<open>
  C1, amended. Take any state \<open>s\<close> that the server reaches from empty stores by a sequence
  of requests of any kind in which every quantity sent to \<^verbatim>\<open>POST /products\<close> and to
  \<^verbatim>\<open>POST /orders\<close> is an integer of magnitude at most \<open>2 ^ 53\<close>, and any listing \<open>L\<close> in it,
  with the random ids and tokens drawn along the way fresh (none repeats a stored one). Then
  the quantities of the orders in the ledger whose \<^verbatim>\<open>productId\<close> is the id of \<open>L\<close> have an
  exact sum \<open>c\<close> that is at most the \<^verbatim>\<open>quantity\<close> \<open>Q\<close> of \<open>L\<close>. Moreover, for any further
  such sequence of requests, \<open>c\<close> plus the quantities of the \<^verbatim>\<open>POST /orders\<close> calls against
  \<open>L\<close> that report success is at most \<open>Q\<close>. Requests are handled one at a time, each handler
  running to completion, so these sequences are all interleavings the server has.
\<close>

theorem no_oversell:
  assumes "fresh_run init reqs" and "safe_run reqs"
    and "s = snd (run init reqs)" and "L \<in> set (products s)"
  shows "\<exists>Q c. p_quantity L = Fin Q \<and> committedQty s (p_id L) = Some c \<and> c \<le> Q \<and>
     (\<forall>calls. fresh_run s calls \<and> safe_run calls \<longrightarrow>
        (\<exists>t. exactSum (map (orderedQty (p_id L)) (fst (run s calls))) = Some t \<and>
             c + t \<le> Q \<and> t \<le> Q))"
proof -
  from consistent_run[OF consistent_init assms(1)] have s: "consistent s"
    by (simp add: assms(3))
  from counted_run[OF consistent_init counted_init assms(1,2)] have n: "counted s"
    by (simp add: assms(3))
  from available_exact[OF n assms(4)] obtain Q c
    where Q: "p_quantity L = Fin Q"
      and c: "committedQty s (p_id L) = Some c" "0 \<le> c" "c \<le> Q"
    by metis
  have later: "\<exists>t. exactSum (map (orderedQty (p_id L)) (fst (run s calls))) = Some t \<and>
      c + t \<le> Q \<and> t \<le> Q"
    if calls: "fresh_run s calls" "safe_run calls" for calls
  proof -
    define s' where "s' = snd (run s calls)"
    from consistent_run[OF s calls(1)] have "consistent s'"
      by (simp add: s'_def)
    from counted_run[OF s n calls] have n': "counted s'"
      by (simp add: s'_def)
    from assms(4) run_products[of s calls] have L': "L \<in> set (products s')"
      by (auto simp: s'_def)
    from available_exact[OF n' L'] Q obtain c'
      where c': "committedQty s' (p_id L) = Some c'" "c' \<le> Q"
      by (metis double.inject)
    from c'(1) have "exactSum (map o_qty (filter (\<lambda>ord. o_productId ord = JStr (p_id L)) (orders s)) @
               map (orderedQty (p_id L)) (fst (run s calls))) = Some c'"
      by (simp add: s'_def run_committedQty)
    with c(1) obtain t where t: "exactSum (map (orderedQty (p_id L)) (fst (run s calls))) = Some t"
      and sum: "c' = c + t"
      by (auto simp: exactSum_append committedQty_def)
    from c'(2) sum c(2) have "c + t \<le> Q" "t \<le> Q"
      by simp_all
    with t show ?thesis
      by blast
  qed
  from Q c(1,3) later show ?thesis
    by blast
qed

text \<open>The sample run: the three setup requests lead to \<open>market\<close>, where the listing
  \<open>tomato\<close> has quantity 10; Bob then orders 4, 7 and 6, of which the first and the last
  succeed.\<close>

theorem no_oversell_witness:
  "committedQty market ''p1'' = Some 0 \<and>
   fst (run market order_requests) =
     [Inr (OrderJson \<lparr>o_id = ''o1'', o_productId = JStr ''p1'', o_buyerId = ''b1'', o_qty = Fin 4,
                       o_date = ''2024-05-01T10:00:00.000Z''\<rparr>),
      Inl (QuantityExceedsAvailable (Fin 7) (Fin 6)),
      Inr (OrderJson \<lparr>o_id = ''o3'', o_productId = JStr ''p1'', o_buyerId = ''b1'', o_qty = Fin 6,
                       o_date = ''2024-05-01T10:00:00.000Z''\<rparr>)] \<and>
   exactSum (map (orderedQty ''p1'') (fst (run market order_requests))) = Some 10 \<and>
   (10::rat) \<le> 10"
proof -
  have m: "market = snd (run init setup_requests)"
    by (simp add: run_setup)
  have safe: "safe_run setup_requests" "safe_run order_requests"
    by (simp_all add: safe_run_def setup_requests_def order_requests_def)
  have L: "tomato \<in> set (products market)"
    by (simp add: market_def)
  have calls: "fresh_run market order_requests"
    by (simp add: sample_defs handler_defs fresh_def soldQty_def js_sub_def Let_def)
  have responses: "fst (run market order_requests) =
     [Inr (OrderJson \<lparr>o_id = ''o1'', o_productId = JStr ''p1'', o_buyerId = ''b1'', o_qty = Fin 4,
                       o_date = ''2024-05-01T10:00:00.000Z''\<rparr>),
      Inl (QuantityExceedsAvailable (Fin 7) (Fin 6)),
      Inr (OrderJson \<lparr>o_id = ''o3'', o_productId = JStr ''p1'', o_buyerId = ''b1'', o_qty = Fin 6,
                       o_date = ''2024-05-01T10:00:00.000Z''\<rparr>)]"
    by (simp add: sample_defs handler_defs soldQty_def js_sub_def Let_def)
  have q: "p_id tomato = ''p1''" "p_quantity tomato = Fin 10"
    by (simp_all add: tomato_def)
  from no_oversell[OF fresh_setup safe(1) m L] obtain Q c
    where Q: "Fin 10 = Fin Q" and c: "committedQty market ''p1'' = Some c" "c \<le> Q"
      and later: "\<forall>calls. fresh_run market calls \<and> safe_run calls \<longrightarrow>
        (\<exists>t. exactSum (map (orderedQty ''p1'') (fst (run market calls))) = Some t \<and>
             c + t \<le> Q \<and> t \<le> Q)"
    unfolding q by blast
  from later calls safe(2) obtain t
    where t: "exactSum (map (orderedQty ''p1'') (fst (run market order_requests))) = Some t" "t \<le> Q"
    by blast
  have "committedQty market ''p1'' = Some 0"
    by (simp add: committedQty_def market_def)
  moreover have "exactSum (map (orderedQty ''p1'') (fst (run market order_requests))) = Some 10"
    by (simp add: responses)
  ultimately show ?thesis
    using responses by simp
qed

section \<open>The public catalog\<close>








section \<open>What the trends response holds\<close>

subsection \<open>The three loops, read through \<open>map_of\<close>\<close>

lemma map_of_modify:
  "map_of (modify k f obj) k' = (if k' = k then map_option f (map_of obj k) else map_of obj k')"
  by (induction obj) (auto simp: modify_def)

lemma getProperty_Missing:
  "getProperty obj k = Missing \<longleftrightarrow> map_of obj k = None \<and> k \<notin> set objectPrototypeKeys"
  by (simp add: getProperty_def split: option.splits)

lemma getProperty_Own: "getProperty obj k = Own v \<longleftrightarrow> map_of obj k = Some v"
  by (simp add: getProperty_def split: option.splits)

lemma getProperty_Inherited:
  "getProperty obj k = Inherited \<longleftrightarrow> map_of obj k = None \<and> k \<in> set objectPrototypeKeys"
  by (simp add: getProperty_def split: option.splits)

lemma map_of_addPrice:
  "map_of (addPrice ns td p) k =
     (if k = toString ns (p_name p) then
        (case map_of td k of
           Some t \<Rightarrow> Some (t\<lparr>totalPrice := js_add (totalPrice t) (p_price p),
                             count := js_add (count t) (Fin 1)\<rparr>)
         | None \<Rightarrow>
             if k \<in> set objectPrototypeKeys then None
             else Some \<lparr>totalPrice = js_add (Fin 0) (p_price p), count = Fin 1,
                         totalSalesQty = Fin 0, avgPrice = None\<rparr>)
      else map_of td k)"
proof (cases "getProperty td (toString ns (p_name p))")
  case (Own t)
  then have "map_of td (toString ns (p_name p)) = Some t"
    by (simp add: getProperty_Own)
  then show ?thesis
    by (simp add: addPrice_def Let_def map_of_modify Own)
next
  case Inherited
  then have "map_of td (toString ns (p_name p)) = None"
    and "toString ns (p_name p) \<in> set objectPrototypeKeys"
    by (simp_all add: getProperty_Inherited)
  then show ?thesis
    by (simp add: addPrice_def Let_def map_of_modify Inherited)
next
  case Missing
  then have "map_of td (toString ns (p_name p)) = None"
    and "toString ns (p_name p) \<notin> set objectPrototypeKeys"
    by (simp_all add: getProperty_Missing)
  then show ?thesis
    by (auto simp: addPrice_def Let_def map_of_modify map_add_def Missing split: option.splits)
qed

lemma map_of_prices:
  "map_of (foldl (addPrice ns) td ps) k =
     (let rows = filter (\<lambda>p. toString ns (p_name p) = k) ps in
      case map_of td k of
        Some t \<Rightarrow> Some (t\<lparr>totalPrice := foldl js_add (totalPrice t) (map p_price rows),
                          count := foldl js_add (count t) (map (\<lambda>p. Fin 1) rows)\<rparr>)
      | None \<Rightarrow>
          if k \<in> set objectPrototypeKeys \<or> rows = [] then None
          else Some \<lparr>totalPrice = foldl js_add (Fin 0) (map p_price rows),
                      count = foldl js_add (Fin 0) (map (\<lambda>p. Fin 1) rows),
                      totalSalesQty = Fin 0, avgPrice = None\<rparr>)"
proof (induction ps arbitrary: td)
  case Nil
  show ?case by (simp split: option.splits)
next
  case (Cons p ps)
  show ?case
    by (simp add: Cons.IH map_of_addPrice Let_def split: option.splits)
qed

lemma map_of_setAverages:
  "map_of (setAverages td) k =
     map_option (\<lambda>t. t\<lparr>avgPrice := Some (js_div (totalPrice t) (count t)), totalSalesQty := Fin 0\<rparr>)
       (map_of td k)"
  by (induction td) (auto simp: setAverages_def)

text \<open>An order counts under the name of the listing that \<^verbatim>\<open>products.find\<close> gives for
  it, if that name is an own property.\<close>

lemma map_of_addSales:
  "map_of (addSales ns ps td ord) k =
     (if map_option (\<lambda>p. toString ns (p_name p)) (productOf ps ord) = Some k
      then map_option (\<lambda>t. t\<lparr>totalSalesQty := js_add (totalSalesQty t) (o_qty ord)\<rparr>) (map_of td k)
      else map_of td k)"
proof (cases "productOf ps ord")
  case None
  then show ?thesis by (simp add: addSales_def)
next
  case (Some p)
  show ?thesis
  proof (cases "getProperty td (toString ns (p_name p))")
    case (Own t)
    then have "map_of td (toString ns (p_name p)) = Some t"
      by (simp add: getProperty_Own)
    then show ?thesis
      by (simp add: addSales_def Let_def map_of_modify Own Some)
  next
    case Inherited
    then have "map_of td (toString ns (p_name p)) = None"
      by (simp add: getProperty_Inherited)
    then show ?thesis
      by (auto simp: addSales_def Let_def Inherited Some)
  next
    case Missing
    then have "map_of td (toString ns (p_name p)) = None"
      by (simp add: getProperty_Missing)
    then show ?thesis
      by (auto simp: addSales_def Let_def Missing Some)
  qed
qed

lemma map_of_sales:
  "map_of (foldl (addSales ns ps) td os) k =
     map_option
       (\<lambda>t. t\<lparr>totalSalesQty := foldl js_add (totalSalesQty t)
           (map o_qty
             (filter (\<lambda>ord. map_option (\<lambda>p. toString ns (p_name p)) (productOf ps ord) = Some k) os))\<rparr>)
       (map_of td k)"
proof (induction os arbitrary: td)
  case Nil
  show ?case by (cases "map_of td k") simp_all
next
  case (Cons ord os)
  show ?case
  proof (cases "map_option (\<lambda>p. toString ns (p_name p)) (productOf ps ord) = Some k")
    case True
    then show ?thesis
      by (cases "map_of td k") (simp_all add: Cons.IH map_of_addSales)
  next
    case False
    then show ?thesis
      by (cases "map_of td k") (auto simp: Cons.IH map_of_addSales)
  qed
qed

text \<open>
  What \<^verbatim>\<open>GET /market-trends\<close> returns under a name \<open>k\<close>. With \<open>rows\<close> the listings whose
  name converts to \<open>k\<close> and \<open>sales\<close> the orders whose listing has such a name: when there are
  no such listings, or when \<open>k\<close> is one of the names \<^verbatim>\<open>Object.prototype\<close> defines, the
  response has no entry for \<open>k\<close>; otherwise the entry holds the sum and the number of the
  rows' prices, their quotient, and the sum of the sales' quantities, each sum added up from
  0 in the order of the store, in the arithmetic of numbers.
\<close>

lemma marketTrends_entry:
  "map_of (marketTrends ns s) k =
     (let rows = filter (\<lambda>p. toString ns (p_name p) = k) (products s);
          sales = filter (\<lambda>ord. map_option (\<lambda>p. toString ns (p_name p)) (productOf (products s) ord) = Some k)
                    (orders s)
      in if k \<in> set objectPrototypeKeys \<or> rows = [] then None
         else Some \<lparr>totalPrice = foldl js_add (Fin 0) (map p_price rows),
                     count = foldl js_add (Fin 0) (map (\<lambda>p. Fin 1) rows),
                     totalSalesQty = foldl js_add (Fin 0) (map o_qty sales),
                     avgPrice = Some (js_div (foldl js_add (Fin 0) (map p_price rows))
                                        (foldl js_add (Fin 0) (map (\<lambda>p. Fin 1) rows)))\<rparr>)"
  by (simp add: marketTrends_def map_of_sales map_of_setAverages map_of_prices Let_def)

text \<open>
  C8. The example of the specification holds on the code: with two listings named
  \<open>Tomato\<close> priced 2 and 4 and orders of 3 and 5 on them, the response has the one entry
  \<open>Tomato\<close> with average price 3 and total ordered quantity 8. But a listing whose name is
  a property name of \<^verbatim>\<open>Object.prototype\<close> gets no entry: after Alice lists
  \<open>constructor\<close> at price 5 and Bob orders 1 of it, the catalog holds the listing and the
  ledger the order, and the response still has the entry for \<open>Tomato\<close> only.
\<close>

theorem trends_miss_inherited_names:
  "fst (handle (draws ''g1'' ''t1'') (snd (run market tomato_requests)) GetMarketTrends) =
     Inr (TrendsJson
       [(''Tomato'', \<lparr>totalPrice = Fin 6, count = Fin 2, totalSalesQty = Fin 8, avgPrice = Some (Fin 3)\<rparr>)]) \<and>
   map p_name (products (snd (run market constructor_requests))) = [JStr ''Tomato'', JStr ''constructor''] \<and>
   map o_productId (orders (snd (run market constructor_requests))) = [JStr ''p3''] \<and>
   fst (handle (draws ''g1'' ''t1'') (snd (run market constructor_requests)) GetMarketTrends) =
     Inr (TrendsJson
       [(''Tomato'', \<lparr>totalPrice = Fin 2, count = Fin 1, totalSalesQty = Fin 0, avgPrice = Some (Fin 2)\<rparr>)])"
proof -
  have two: "snd (run market tomato_requests) =
      market\<lparr>products := [tomato,
                 \<lparr>p_id = ''p2'', p_farmerId = ''a1'', p_name = JStr ''Tomato'', p_desc = JStr [],
                   p_price = Fin 4, p_quantity = Fin 10\<rparr>],
              orders :=
                [\<lparr>o_id = ''o4'', o_productId = JStr ''p1'', o_buyerId = ''b1'', o_qty = Fin 3,
                   o_date = ''2024-05-01T10:00:00.000Z''\<rparr>,
                 \<lparr>o_id = ''o5'', o_productId = JStr ''p2'', o_buyerId = ''b1'', o_qty = Fin 5,
                   o_date = ''2024-05-01T10:00:00.000Z''\<rparr>]\<rparr>"
    by (simp add: tomato_requests_def sample_defs handler_defs soldQty_def js_sub_def Let_def)
  have ctor: "snd (run market constructor_requests) =
      market\<lparr>products := [tomato,
                 \<lparr>p_id = ''p3'', p_farmerId = ''a1'', p_name = JStr ''constructor'', p_desc = JStr [],
                   p_price = Fin 5, p_quantity = Fin 10\<rparr>],
              orders :=
                [\<lparr>o_id = ''o6'', o_productId = JStr ''p3'', o_buyerId = ''b1'', o_qty = Fin 1,
                   o_date = ''2024-05-01T10:00:00.000Z''\<rparr>]\<rparr>"
    by (simp add: constructor_requests_def sample_defs handler_defs soldQty_def js_sub_def Let_def)
  have 1: "marketTrends (\<lambda>r. ''0'') (snd (run market tomato_requests)) =
      [(''Tomato'', \<lparr>totalPrice = Fin 6, count = Fin 2, totalSalesQty = Fin 8, avgPrice = Some (Fin 3)\<rparr>)]"
    unfolding two
    by (simp add: marketTrends_def addPrice_def addSales_def setAverages_def getProperty_def
        modify_def productOf_def objectPrototypeKeys_def market_def tomato_def Let_def)
  have 2: "marketTrends (\<lambda>r. ''0'') (snd (run market constructor_requests)) =
      [(''Tomato'', \<lparr>totalPrice = Fin 2, count = Fin 1, totalSalesQty = Fin 0, avgPrice = Some (Fin 2)\<rparr>)]"
    unfolding ctor
    by (simp add: marketTrends_def addPrice_def addSales_def setAverages_def getProperty_def
        modify_def productOf_def objectPrototypeKeys_def market_def tomato_def Let_def)
  have 3: "map p_name (products (snd (run market constructor_requests))) =
      [JStr ''Tomato'', JStr ''constructor'']"
    and 4: "map o_productId (orders (snd (run market constructor_requests))) = [JStr ''p3'']"
    unfolding ctor by (simp_all add: tomato_def)
  show ?thesis
    by (simp add: 1 2 3 4 draws_def)
qed

end
